theory Spec2Isabelle
  imports Complex_Main "HOL-Library.Multiset"
begin

section \<open>Data model\<close>

text \<open>
  The development embeds \<^verbatim>\<open>src/src/operation/buffer/BufferBuilder.cpp\<close>. The classes
  whose headers and bodies are outside that file (Label, Edge, EdgeList, the geometry
  classes, the parameters) are modelled from the specification, each marked so; the stages of
  the pipeline that the builder only calls (curve building, noding, planar graph, depth
  location, polygon building, overlay, polygonizer, line merger, union) are passed in as
  collaborators.
\<close>

text \<open>
  Modelled from the spec: \<^verbatim>\<open>geom::Coordinate\<close> (geos/geom/Coordinate.h is not among the
  sources), "(x, y) with optional z, m": the pair of the planar ordinates. An ordinate is a
  finite double, given by the real number it denotes; the comparison of two doubles is the
  comparison of these reals. Where the builder computes with doubles, the rounding of the
  results is taken from the collaborators (\<open>toDouble\<close> below).
\<close>

record Coordinate =
  cx :: real
  cy :: real

text \<open>
  Modelled from the spec: \<^verbatim>\<open>geom::Location\<close> (geos/geom/Location.h is not among the
  sources). The spec names the locations INTERIOR, BOUNDARY and EXTERIOR; \<open>NONE\<close> is the
  location that carries no information, which is what the "maximum-information" merge of
  labels fills in.
\<close>

datatype Location = INTERIOR | BOUNDARY | EXTERIOR | NONE

text \<open>
  Modelled from the spec: \<^verbatim>\<open>geom::Position\<close> (geos/geom/Position.h is not among the
  sources), the positions "LEFT, RIGHT, ON".
\<close>

datatype Position = ON | LEFT | RIGHT

text \<open>
  Modelled from the spec: the locations of a \<^verbatim>\<open>geomgraph::Label\<close> for one source geometry,
  one for each position (geos/geomgraph/Label.h is not among the sources).
\<close>

record TopologyLocation =
  locOn :: Location
  locLeft :: Location
  locRight :: Location

text \<open>
  Modelled from the spec: \<^verbatim>\<open>geomgraph::Label\<close>, "a fixed-shape record of six locations":
  the locations for the source geometries 0 and 1.
\<close>

record Label =
  elt0 :: TopologyLocation
  elt1 :: TopologyLocation

text \<open>Modelled from the spec: the location of a TopologyLocation at a position.\<close>

definition tlGet :: "TopologyLocation \<Rightarrow> Position \<Rightarrow> Location" where
  "tlGet t pos = (case pos of ON \<Rightarrow> locOn t | LEFT \<Rightarrow> locLeft t | RIGHT \<Rightarrow> locRight t)"

text \<open>
  Modelled from the spec: \<^verbatim>\<open>Label::getLocation(geomIndex, pos)\<close>. Only the indices 0 and 1
  exist; the source only ever asks for index 0.
\<close>

definition getLocation :: "Label \<Rightarrow> nat \<Rightarrow> Position \<Rightarrow> Location" where
  "getLocation l geomIndex pos = tlGet (if geomIndex = 0 then elt0 l else elt1 l) pos"

text \<open>Modelled from the spec: the flip of a TopologyLocation "exchanges LEFT/RIGHT".\<close>

definition tlFlip :: "TopologyLocation \<Rightarrow> TopologyLocation" where
  "tlFlip t = t\<lparr>locLeft := locRight t, locRight := locLeft t\<rparr>"

text \<open>Modelled from the spec: \<^verbatim>\<open>Label::flip()\<close> "exchanges LEFT/RIGHT".\<close>

definition flip :: "Label \<Rightarrow> Label" where
  "flip l = \<lparr>elt0 = tlFlip (elt0 l), elt1 = tlFlip (elt1 l)\<rparr>"

text \<open>
  Modelled from the spec: the "maximum-information combination" of two locations: a location
  that carries no information takes the other one.
\<close>

definition mergeLocation :: "Location \<Rightarrow> Location \<Rightarrow> Location" where
  "mergeLocation a b = (if a = NONE then b else a)"

text \<open>Modelled from the spec: the merge of two TopologyLocations, position by position.\<close>

definition tlMerge :: "TopologyLocation \<Rightarrow> TopologyLocation \<Rightarrow> TopologyLocation" where
  "tlMerge t u = \<lparr>locOn = mergeLocation (locOn t) (locOn u),
                  locLeft = mergeLocation (locLeft t) (locLeft u),
                  locRight = mergeLocation (locRight t) (locRight u)\<rparr>"

text \<open>
  Modelled from the spec: \<^verbatim>\<open>Label::merge(other)\<close>, the "pointwise maximum-information
  combination".
\<close>

definition merge :: "Label \<Rightarrow> Label \<Rightarrow> Label" where
  "merge l other = \<lparr>elt0 = tlMerge (elt0 l) (elt0 other), elt1 = tlMerge (elt1 l) (elt1 other)\<rparr>"

text \<open>
  Modelled from the spec: \<^verbatim>\<open>geomgraph::Edge\<close> (geos/geomgraph/Edge.h is not among the
  sources), "an immutable coordinate chain, a Label, and a mutable depthDelta". The depth
  delta is a C++ \<^verbatim>\<open>int\<close>: an integer from -2^31 up to 2^31 - 1, and the sum the builder
  stores in it is wrapped to that range (\<open>int32\<close> below).
\<close>

record Edge =
  edgePts :: "Coordinate list"
  edgeLabel :: Label
  edgeDepthDelta :: int

text \<open>
  Modelled from the spec: \<^verbatim>\<open>Edge::isPointwiseEqual\<close>, "compare point-wise direction".
\<close>

definition isPointwiseEqual :: "Edge \<Rightarrow> Edge \<Rightarrow> bool" where
  "isPointwiseEqual a e = (edgePts a = edgePts e)"

text \<open>
  Modelled from the spec: the equality of edges that the EdgeList looks up, "two edges are
  equal when their coordinate sequences are either identical or reverse-identical".
\<close>

definition equalEdge :: "Edge \<Rightarrow> Edge \<Rightarrow> bool" where
  "equalEdge a e = (edgePts a = edgePts e \<or> edgePts a = rev (edgePts e))"

text \<open>
  Modelled from the spec: \<^verbatim>\<open>EdgeList::findEqualEdge\<close> (geos/geomgraph/EdgeList.h is not
  among the sources), which "returns any previously inserted edge equal (forward or reverse)
  to e, else null". The EdgeList owns the edges and the builder refers to an edge by pointer,
  which is its index in the list here. The model returns the first equal edge;
  \<open>findEqualEdge_unique\<close> below shows that it is the only one in a list the builder
  has filled.
\<close>

fun findEqualEdge :: "Edge list \<Rightarrow> Edge \<Rightarrow> nat option" where
  "findEqualEdge [] e = None"
| "findEqualEdge (a # rest) e =
     (if equalEdge a e then Some 0 else map_option Suc (findEqualEdge rest e))"

text \<open>Modelled from the spec: \<^verbatim>\<open>EdgeList::add\<close>, which appends the edge.\<close>

definition EdgeList_add :: "Edge list \<Rightarrow> Edge \<Rightarrow> Edge list" where
  "EdgeList_add el e = el @ [e]"


section \<open>Geometries, parameters and the builder\<close>

text \<open>
  Modelled from the spec: the geometry classes (geos/geom/*.h are not among the sources),
  "point, line, polygon, or collection thereof". A line carries its coordinates, a polygon its
  shell and its holes, a collection its immediate components. All geometries are taken to come
  from one GeometryFactory, whose \<^verbatim>\<open>createPolygon()\<close>, \<^verbatim>\<open>createLineString()\<close>,
  \<^verbatim>\<open>createLineString(coords)\<close> and \<^verbatim>\<open>createMultiLineString(lines)\<close> are the
  constructor applications \<open>Polygon [] []\<close>, \<open>LineString []\<close>, \<open>LineString coords\<close> and
  \<open>MultiLineString lines\<close>; the builder's \<^verbatim>\<open>geomFact\<close> pointer is therefore not part of
  the state.
\<close>

datatype Geometry =
    Point "Coordinate list"
  | LineString "Coordinate list"
  | Polygon "Coordinate list" "Coordinate list list"
  | MultiPoint "Geometry list"
  | MultiLineString "Geometry list"
  | MultiPolygon "Geometry list"
  | GeometryCollection "Geometry list"

text \<open>
  Modelled from the spec: the components of a geometry, "collection thereof": the immediate
  children of a collection; a geometry that is not a collection has none of its own.
\<close>

fun components :: "Geometry \<Rightarrow> Geometry list option" where
  "components (MultiPoint gs) = Some gs"
| "components (MultiLineString gs) = Some gs"
| "components (MultiPolygon gs) = Some gs"
| "components (GeometryCollection gs) = Some gs"
| "components g = None"

text \<open>
  Modelled from the spec: \<^verbatim>\<open>Geometry::getNumGeometries\<close>: the number of components of a
  collection, 1 for any other geometry.
\<close>

definition getNumGeometries :: "Geometry \<Rightarrow> nat" where
  "getNumGeometries g = (case components g of Some gs \<Rightarrow> length gs | None \<Rightarrow> 1)"

text \<open>
  Modelled from the spec: \<^verbatim>\<open>Geometry::getGeometryN\<close>: the n-th component of a collection,
  the geometry itself otherwise. The source calls it below \<^verbatim>\<open>getNumGeometries\<close> only.
\<close>

definition getGeometryN :: "Geometry \<Rightarrow> nat \<Rightarrow> Geometry" where
  "getGeometryN g n = (case components g of Some gs \<Rightarrow> gs ! n | None \<Rightarrow> g)"

text \<open>
  Modelled from the spec: \<^verbatim>\<open>Geometry::clone\<close>, "a clone of the input": a deep copy is the
  same value.
\<close>

definition clone :: "Geometry \<Rightarrow> Geometry" where
  "clone g = g"

text \<open>
  The errors the builder raises or lets through: the exceptions of geos/util, and
  \<open>UndefinedBehaviour\<close> where the source reads through a null pointer or an empty
  sequence, so that nothing is proved about such a run.
\<close>

datatype error =
    IllegalArgumentException
  | TopologyException
  | InterruptedException
  | UndefinedBehaviour

text \<open>
  Modelled from the spec: \<^verbatim>\<open>PrecisionModel\<close>, "one of floating, fixed-scale s"
  (geos/geom/PrecisionModel.h is not among the sources).
\<close>

datatype PrecisionModel = Floating | Fixed real

text \<open>Modelled from the spec: the end cap styles, "ROUND, FLAT, SQUARE".\<close>

datatype EndCapStyle = CAP_ROUND | CAP_FLAT | CAP_SQUARE

text \<open>Modelled from the spec: the join styles, "ROUND, MITRE, BEVEL".\<close>

datatype JoinStyle = JOIN_ROUND | JOIN_MITRE | JOIN_BEVEL

text \<open>
  Modelled from the spec: \<^verbatim>\<open>BufferParameters\<close> (section 3 of the spec;
  geos/operation/buffer/BufferParameters.h is not among the sources).
\<close>

record BufferParameters =
  endCapStyle :: EndCapStyle
  joinStyle :: JoinStyle
  quadrantSegments :: int
  mitreLimit :: real
  singleSided :: bool
  simplifyFactor :: real

text \<open>Modelled from the spec: \<^verbatim>\<open>BufferParameters::isSingleSided\<close>, the getter.\<close>

definition isSingleSided :: "BufferParameters \<Rightarrow> bool" where
  "isSingleSided p = singleSided p"

text \<open>
  Modelled from the spec: \<^verbatim>\<open>noding::SegmentString\<close>, "an ordered coordinate sequence plus
  opaque user data" (geos/noding/SegmentString.h is not among the sources); in the builder the
  user data is a pointer to a Label, or null.
\<close>

record SegmentString =
  ssCoords :: "Coordinate list"
  ssData :: "Label option"

text \<open>
  Modelled from the spec: \<^verbatim>\<open>noding::Noder\<close>, the "capability interface with two
  operations": a noder is the composition of \<^verbatim>\<open>computeNodes\<close> and
  \<^verbatim>\<open>getNodedSubstrings\<close>.
\<close>

type_synonym Noder = "SegmentString list \<Rightarrow> SegmentString list"

text \<open>
  Modelled from the spec: the members of \<^verbatim>\<open>BufferBuilder\<close>
  (geos/operation/buffer/BufferBuilder.h is not among the sources), as the source file uses
  them. \<open>li\<close> is the LineIntersector that the builder allocates on demand together with its
  IntersectionAdder, given by the precision model it is bound to.
\<close>

record BufferBuilder =
  bufParams :: BufferParameters
  workingPrecisionModel :: "PrecisionModel option"
  workingNoder :: "Noder option"
  li :: "PrecisionModel option"
  edgeList :: "Edge list"
  isInvertOrientation :: bool

text \<open>
  Modelled from the spec: the constructor \<^verbatim>\<open>BufferBuilder(const BufferParameters&)\<close>,
  the "fresh orchestrator": it carries the parameters and nothing else.
\<close>

definition BufferBuilder_new :: "BufferParameters \<Rightarrow> BufferBuilder" where
  "BufferBuilder_new nBufParams =
     \<lparr>bufParams = nBufParams, workingPrecisionModel = None, workingNoder = None, li = None,
      edgeList = [], isInvertOrientation = False\<rparr>"

text \<open>
  Modelled from the spec: \<^verbatim>\<open>BufferSubgraph\<close> (geos/operation/buffer/BufferSubgraph.h is
  not among the sources) with its "computed rightmost coordinate"; the rest of it (nodes,
  directed edges, depths) is the opaque body.
\<close>

record 'b BufferSubgraph =
  rightMostCoord :: Coordinate
  sgBody :: 'b

text \<open>Modelled from the spec: \<^verbatim>\<open>BufferSubgraph::getRightmostCoordinate\<close>, the getter.\<close>

definition getRightmostCoordinate :: "'b BufferSubgraph \<Rightarrow> Coordinate" where
  "getRightmostCoordinate sg = rightMostCoord sg"

text \<open>
  Modelled from the spec: \<^verbatim>\<open>BufferSubgraph::compareTo\<close>, the order "of rightmost
  coordinate" that the subgraphs are sorted by: the comparison of the x-ordinates of the
  rightmost coordinates, as -1, 0 or 1.
\<close>

definition compareTo :: "'b BufferSubgraph \<Rightarrow> 'b BufferSubgraph \<Rightarrow> int" where
  "compareTo first second =
     (if cx (rightMostCoord first) < cx (rightMostCoord second) then - 1
      else if cx (rightMostCoord first) > cx (rightMostCoord second) then 1
      else 0)"

text \<open>
  The collaborators the builder consumes as black boxes (the spec's "external
  collaborators"), taken as parameters: the precision model, dimension, boundary and area of a
  geometry, the curve-set builder, the offset-curve builder, the default noder, the planar
  graph and the creation of subgraphs, the depth locater, the depth computation, the polygon
  builder, the overlay, the polygonizer, the unary union and the line merger. A collaborator
  that can throw returns a sum. \<open>interruptRequested k\<close> says whether the k-th
  \<^verbatim>\<open>GEOS_CHECK_FOR_INTERRUPTS\<close> of \<^verbatim>\<open>buffer\<close> finds an interrupt request.
  The type parameters are the planar graph, its nodes, the body of a subgraph and the polygon
  builder.

  The platform is a collaborator as well. \<open>std_sort\<close> is \<^verbatim>\<open>std::sort\<close> of the C++
  library on a vector of subgraphs: the standard promises a permutation of the vector in which
  no element compares before an earlier one, and leaves the order of equivalent elements
  open. \<open>toDouble\<close> is the rounding of a real number to a double: the value of a decimal
  literal \<^verbatim>\<open>c\<close> is \<open>toDouble c\<close>, and the product and the difference of two doubles
  are \<open>toDouble (a * b)\<close> and \<open>toDouble (a - b)\<close>; what it does is not fixed here
  (not-a-number and the infinities are left out). \<open>coordinateDistance\<close> is
  \<^verbatim>\<open>Coordinate::distance\<close> and \<open>getLength\<close> is \<^verbatim>\<open>LineString::getLength\<close>,
  of the line with the given coordinates; both return doubles.
\<close>

record ('pg, 'n, 'b, 'pb) Collaborators =
  getPrecisionModel :: "Geometry \<Rightarrow> PrecisionModel"
  getDimension :: "Geometry \<Rightarrow> int"
  getBoundary :: "Geometry \<Rightarrow> Geometry"
  getArea :: "Geometry \<Rightarrow> real"
  getCurves :: "Geometry \<Rightarrow> real \<Rightarrow> PrecisionModel \<Rightarrow> BufferParameters \<Rightarrow> bool \<Rightarrow> SegmentString list"
  getSingleSidedLineCurve ::
    "PrecisionModel \<Rightarrow> BufferParameters \<Rightarrow> Coordinate list \<Rightarrow> real \<Rightarrow> bool \<Rightarrow> bool \<Rightarrow> Coordinate list list"
  MCIndexNoder :: "PrecisionModel \<Rightarrow> Noder"
  addEdges :: "Edge list \<Rightarrow> 'pg"
  getNodes :: "'pg \<Rightarrow> 'n list"
  isVisited :: "'pg \<Rightarrow> 'n \<Rightarrow> bool"
  create :: "'pg \<Rightarrow> 'n \<Rightarrow> error + ('b BufferSubgraph \<times> 'pg)"
  getDepth :: "'b BufferSubgraph list \<Rightarrow> Coordinate \<Rightarrow> int"
  computeDepth :: "'b BufferSubgraph \<Rightarrow> int \<Rightarrow> error + 'b BufferSubgraph"
  findResultEdges :: "'b BufferSubgraph \<Rightarrow> 'b BufferSubgraph"
  newPolygonBuilder :: 'pb
  polyBuilderAdd :: "'b BufferSubgraph \<Rightarrow> 'pb \<Rightarrow> error + ('b BufferSubgraph \<times> 'pb)"
  getPolygons :: "'pb \<Rightarrow> Geometry list"
  buildGeometry :: "Geometry list \<Rightarrow> Geometry"
  overlayUnion :: "Geometry \<Rightarrow> Geometry \<Rightarrow> error + Geometry"
  polygonize :: "Geometry \<Rightarrow> Geometry list"
  unaryUnion :: "Geometry list \<Rightarrow> error + Geometry"
  snapIntersection :: "Geometry \<Rightarrow> Geometry \<Rightarrow> error + Geometry"
  getMergedLineStrings :: "Geometry \<Rightarrow> Coordinate list list"
  interruptRequested :: "nat \<Rightarrow> bool"
  std_sort ::
    "('b BufferSubgraph \<Rightarrow> 'b BufferSubgraph \<Rightarrow> bool) \<Rightarrow> 'b BufferSubgraph list
       \<Rightarrow> 'b BufferSubgraph list"
  toDouble :: "real \<Rightarrow> real"
  coordinateDistance :: "Coordinate \<Rightarrow> Coordinate \<Rightarrow> real"
  getLength :: "Coordinate list \<Rightarrow> real"


section \<open>BufferBuilder: edge unification\<close>

text \<open>\<^verbatim>\<open>BufferBuilder::depthDelta\<close> (lines 109-121).\<close>

definition depthDelta :: "Label \<Rightarrow> int" where
  "depthDelta label =
     (let lLoc = getLocation label 0 LEFT;
          rLoc = getLocation label 0 RIGHT
      in if lLoc = INTERIOR \<and> rLoc = EXTERIOR then 1
         else if lLoc = EXTERIOR \<and> rLoc = INTERIOR then - 1
         else 0)"

text \<open>
  The value of an expression of the C++ type \<^verbatim>\<open>int\<close> (32 bits, two's complement): the
  integer result, wrapped into the range from -2^31 to 2^31 - 1 as the addition of the
  machine wraps it.
\<close>

definition int32 :: "int \<Rightarrow> int" where
  "int32 n = (n + 2 ^ 31) mod 2 ^ 32 - 2 ^ 31"

text \<open>
  \<^verbatim>\<open>BufferBuilder::insertUniqueEdge\<close> (lines 673-710). The sum of line 696 is a sum
  of two \<^verbatim>\<open>int\<close>s. In the second branch the source adds the edge and then sets the
  depth delta through the pointer, so the stored edge carries it; \<open>depthDelta\<close> is -1, 0
  or 1, which needs no wrapping.
\<close>

definition insertUniqueEdge :: "BufferBuilder \<Rightarrow> Edge \<Rightarrow> BufferBuilder" where
  "insertUniqueEdge b e =
     (case findEqualEdge (edgeList b) e of
        Some i \<Rightarrow>
          (let existingEdge = edgeList b ! i;
               existingLabel = edgeLabel existingEdge;
               labelToMerge = (if \<not> isPointwiseEqual existingEdge e
                               then flip (edgeLabel e) else edgeLabel e);
               mergeDelta = depthDelta labelToMerge;
               existingDelta = edgeDepthDelta existingEdge;
               newDelta = int32 (existingDelta + mergeDelta)
           in b\<lparr>edgeList := (edgeList b)[i := existingEdge\<lparr>edgeLabel := merge existingLabel labelToMerge,
                                                          edgeDepthDelta := newDelta\<rparr>]\<rparr>)
      | None \<Rightarrow>
          b\<lparr>edgeList := EdgeList_add (edgeList b) (e\<lparr>edgeDepthDelta := depthDelta (edgeLabel e)\<rparr>)\<rparr>)"

text \<open>
  No two chains of a list are equal or the reverse of one another: the invariant of the
  edge list after deduplication.
\<close>

definition uniqueChains :: "Coordinate list list \<Rightarrow> bool" where
  "uniqueChains cs \<longleftrightarrow>
     (\<forall>i < length cs. \<forall>j < length cs. (cs ! i = cs ! j \<or> cs ! i = rev (cs ! j)) \<longrightarrow> i = j)"


section \<open>BufferBuilder: noding\<close>

text \<open>
  \<^verbatim>\<open>BufferBuilder::getNoder\<close> (lines 573-611): the working noder when one was set, else a
  fresh MCIndexNoder over the builder's LineIntersector, which is bound (created or rebound)
  to the precision model.
\<close>

definition getNoder ::
  "('pg, 'n, 'b, 'pb) Collaborators \<Rightarrow> BufferBuilder \<Rightarrow> PrecisionModel \<Rightarrow> Noder \<times> BufferBuilder"
where
  "getNoder env b pm =
     (case workingNoder b of
        Some noder \<Rightarrow> (noder, b)
      | None \<Rightarrow> (MCIndexNoder env pm, b\<lparr>li := Some pm\<rparr>))"

text \<open>
  Modelled from the spec: \<^verbatim>\<open>RepeatedPointRemover::removeRepeatedPoints\<close> ("remove repeated
  consecutive points"; geos/operation/valid/RepeatedPointRemover.h is not among the sources).
\<close>

definition removeRepeatedPoints :: "Coordinate list \<Rightarrow> Coordinate list" where
  "removeRepeatedPoints cs = remdups_adj cs"

text \<open>
  Modelled from the spec: the constructor \<^verbatim>\<open>Edge(coordinates, label)\<close>; the depth delta
  of a new edge is 0 until the builder sets it.
\<close>

definition Edge_new :: "Coordinate list \<Rightarrow> Label \<Rightarrow> Edge" where
  "Edge_new cs l = \<lparr>edgePts = cs, edgeLabel = l, edgeDepthDelta = 0\<rparr>"

text \<open>
  The loop of \<^verbatim>\<open>BufferBuilder::computeNodedEdges\<close> over the noded substrings (lines
  643-663). A collapsed substring is skipped by \<^verbatim>\<open>continue\<close> before its label is read;
  reading the label of a substring whose data pointer is null is undefined in the source.
\<close>

fun insertNodedEdges :: "SegmentString list \<Rightarrow> BufferBuilder \<Rightarrow> error + BufferBuilder" where
  "insertNodedEdges [] b = Inr b"
| "insertNodedEdges (segStr # rest) b =
     (let oldLabel = ssData segStr;
          cs = removeRepeatedPoints (ssCoords segStr)
      in if length cs < 2 then insertNodedEdges rest b
         else (case oldLabel of
                 None \<Rightarrow> Inl UndefinedBehaviour
               | Some l \<Rightarrow> insertNodedEdges rest (insertUniqueEdge b (Edge_new cs l))))"

text \<open>\<^verbatim>\<open>BufferBuilder::computeNodedEdges\<close> (lines 613-670).\<close>

definition computeNodedEdges ::
  "('pg, 'n, 'b, 'pb) Collaborators \<Rightarrow> BufferBuilder \<Rightarrow> SegmentString list \<Rightarrow> PrecisionModel
     \<Rightarrow> error + BufferBuilder"
where
  "computeNodedEdges env b bufferSegStrList precisionModel =
     (let (noder, b1) = getNoder env b precisionModel;
          nodedSegStrings = noder bufferSegStrList
      in insertNodedEdges nodedSegStrings b1)"

text \<open>
  The edges the loop hands to \<open>insertUniqueEdge\<close>, in order: one for each noded substring
  that keeps at least two points (up to the first of them whose label pointer is null, where
  the loop stops being defined).
\<close>

fun handedEdges :: "SegmentString list \<Rightarrow> Edge list" where
  "handedEdges [] = []"
| "handedEdges (segStr # rest) =
     (let cs = removeRepeatedPoints (ssCoords segStr)
      in if length cs < 2 then handedEdges rest
         else (case ssData segStr of
                 None \<Rightarrow> []
               | Some l \<Rightarrow> Edge_new cs l # handedEdges rest))"


section \<open>BufferBuilder: subgraphs\<close>

text \<open>\<^verbatim>\<open>BufferSubgraphGT\<close> (lines 712-721), the comparator handed to \<^verbatim>\<open>std::sort\<close>.\<close>

definition BufferSubgraphGT :: "'b BufferSubgraph \<Rightarrow> 'b BufferSubgraph \<Rightarrow> bool" where
  "BufferSubgraphGT first second = (if compareTo first second > 0 then True else False)"

text \<open>
  The loop of \<^verbatim>\<open>BufferBuilder::createSubgraphs\<close> over the nodes (lines 729-736):
  \<^verbatim>\<open>BufferSubgraph::create\<close> marks the nodes it reaches as visited, in the graph.
\<close>

fun collectSubgraphs ::
  "('pg, 'n, 'b, 'pb) Collaborators \<Rightarrow> 'n list \<Rightarrow> 'pg \<Rightarrow> 'b BufferSubgraph list
     \<Rightarrow> error + 'b BufferSubgraph list"
where
  "collectSubgraphs env [] graph subgraphList = Inr subgraphList"
| "collectSubgraphs env (node # nodes) graph subgraphList =
     (if \<not> isVisited env graph node then
        (case create env graph node of
           Inl exc \<Rightarrow> Inl exc
         | Inr (subgraph, graph') \<Rightarrow> collectSubgraphs env nodes graph' (subgraphList @ [subgraph]))
      else collectSubgraphs env nodes graph subgraphList)"

text \<open>
  \<^verbatim>\<open>BufferBuilder::createSubgraphs\<close> (lines 723-745): the extracted subgraphs,
  sorted by the library's \<^verbatim>\<open>std::sort\<close> with the comparator
  \<^verbatim>\<open>BufferSubgraphGT\<close>.
\<close>

definition createSubgraphs ::
  "('pg, 'n, 'b, 'pb) Collaborators \<Rightarrow> 'pg \<Rightarrow> 'b BufferSubgraph list \<Rightarrow> error + 'b BufferSubgraph list"
where
  "createSubgraphs env graph subgraphList =
     (case collectSubgraphs env (getNodes env graph) graph subgraphList of
        Inl exc \<Rightarrow> Inl exc
      | Inr collected \<Rightarrow> Inr (std_sort env BufferSubgraphGT collected))"

text \<open>
  The loop of \<^verbatim>\<open>BufferBuilder::buildSubgraphs\<close> (lines 757-789), with its local
  \<^verbatim>\<open>processedGraphs\<close> and the polygon builder as loop state. \<^verbatim>\<open>processedGraphs\<close>
  holds pointers to the subgraphs, so it shows each subgraph as \<^verbatim>\<open>computeDepth\<close>,
  \<^verbatim>\<open>findResultEdges\<close> and \<^verbatim>\<open>polyBuilder.add\<close> have left it.
\<close>

fun buildSubgraphsFrom ::
  "('pg, 'n, 'b, 'pb) Collaborators \<Rightarrow> 'b BufferSubgraph list \<Rightarrow> 'b BufferSubgraph list \<Rightarrow> 'pb
     \<Rightarrow> error + ('b BufferSubgraph list \<times> 'pb)"
where
  "buildSubgraphsFrom env [] processedGraphs polyBuilder = Inr (processedGraphs, polyBuilder)"
| "buildSubgraphsFrom env (subgraph # rest) processedGraphs polyBuilder =
     (let p = getRightmostCoordinate subgraph;
          outsideDepth = getDepth env processedGraphs p
      in case computeDepth env subgraph outsideDepth of
           Inl exc \<Rightarrow> Inl exc
         | Inr subgraph1 \<Rightarrow>
             (case polyBuilderAdd env (findResultEdges env subgraph1) polyBuilder of
                Inl exc \<Rightarrow> Inl exc
              | Inr (subgraph2, polyBuilder') \<Rightarrow>
                  buildSubgraphsFrom env rest (processedGraphs @ [subgraph2]) polyBuilder'))"

text \<open>\<^verbatim>\<open>BufferBuilder::buildSubgraphs\<close> (lines 747-790).\<close>

definition buildSubgraphs ::
  "('pg, 'n, 'b, 'pb) Collaborators \<Rightarrow> 'b BufferSubgraph list \<Rightarrow> 'pb \<Rightarrow> error + 'pb"
where
  "buildSubgraphs env subgraphList polyBuilder =
     (case buildSubgraphsFrom env subgraphList [] polyBuilder of
        Inl exc \<Rightarrow> Inl exc
      | Inr (processedGraphs, polyBuilder') \<Rightarrow> Inr polyBuilder')"


section \<open>BufferBuilder: buffer\<close>

text \<open>\<^verbatim>\<open>BufferBuilder::createEmptyResultGeometry\<close> (lines 792-797).\<close>

definition createEmptyResultGeometry :: Geometry where
  "createEmptyResultGeometry = Polygon [] []"

text \<open>
  The search for the polygon of greatest area in the single-sided clean-up of
  \<^verbatim>\<open>buffer\<close> (lines 547-560): \<open>biggest\<close> is the element the iterator
  \<^verbatim>\<open>biggestPolygonIterator\<close> points to, \<open>None\<close> for \<^verbatim>\<open>itEnd\<close>.
\<close>

fun biggestPolygon :: "(Geometry \<Rightarrow> real) \<Rightarrow> Geometry list \<Rightarrow> Geometry option \<Rightarrow> real \<Rightarrow> Geometry option" where
  "biggestPolygon area [] biggest maxArea = biggest"
| "biggestPolygon area (poly # rest) biggest maxArea =
     (if area poly > maxArea then biggestPolygon area rest (Some poly) (area poly)
      else biggestPolygon area rest biggest maxArea)"

text \<open>
  The clean-up of single-sided buffer artifacts at the end of \<^verbatim>\<open>buffer\<close> (lines
  503-570), for the input \<open>g\<close> and the assembled \<open>resultGeom\<close>.
\<close>

definition singleSidedCleanup ::
  "('pg, 'n, 'b, 'pb) Collaborators \<Rightarrow> Geometry \<Rightarrow> Geometry \<Rightarrow> error + Geometry"
where
  "singleSidedCleanup env g resultGeom =
     (let inputLineString = (if getDimension env g > 1 then getBoundary env g else g);
          bufferBoundary = getBoundary env resultGeom
      in case overlayUnion env inputLineString bufferBoundary of
           Inl exc \<Rightarrow> Inl exc
         | Inr nodedLinework \<Rightarrow>
             (let polys = polygonize env nodedLinework
              in if length polys > 1 then
                   (case biggestPolygon (getArea env) polys None 0 of
                      Some gg \<Rightarrow> Inr gg
                    | None \<Rightarrow> Inr resultGeom)
                 else Inr resultGeom))"

text \<open>
  \<^verbatim>\<open>BufferBuilder::buffer\<close> from line 392 on: the buffer of a geometry that is not
  split into components.
\<close>

definition bufferWhole ::
  "('pg, 'n, 'b, 'pb) Collaborators \<Rightarrow> BufferBuilder \<Rightarrow> Geometry \<Rightarrow> real
     \<Rightarrow> error + (Geometry \<times> BufferBuilder)"
where
  "bufferWhole env b g distance =
     (let precisionModel = (case workingPrecisionModel b of
                              None \<Rightarrow> getPrecisionModel env g
                            | Some pm \<Rightarrow> pm)
      in if interruptRequested env 0 then Inl InterruptedException
         else
           (let bufferSegStrList = getCurves env g distance precisionModel (bufParams b)
                                     (isInvertOrientation b)
            in if bufferSegStrList = [] then Inr (createEmptyResultGeometry, b)
               else
                 (case computeNodedEdges env b bufferSegStrList precisionModel of
                    Inl exc \<Rightarrow> Inl exc
                  | Inr b1 \<Rightarrow>
                      if interruptRequested env 1 then Inl InterruptedException
                      else
                        (let graph = addEdges env (edgeList b1)
                         in if interruptRequested env 2 then Inl InterruptedException
                            else
                              (case createSubgraphs env graph [] of
                                 Inl exc \<Rightarrow> Inl exc
                               | Inr subgraphList \<Rightarrow>
                                   if interruptRequested env 3 then Inl InterruptedException
                                   else
                                     (case buildSubgraphs env subgraphList (newPolygonBuilder env) of
                                        Inl exc \<Rightarrow> Inl exc
                                      | Inr polyBuilder \<Rightarrow>
                                          (let resultPolyList = getPolygons env polyBuilder
                                           in if resultPolyList = []
                                              then Inr (createEmptyResultGeometry, b1)
                                              else
                                                (let resultGeom = buildGeometry env resultPolyList
                                                 in if isSingleSided (bufParams b1) then
                                                      (case singleSidedCleanup env g resultGeom of
                                                         Inl exc \<Rightarrow> Inl exc
                                                       | Inr cleaned \<Rightarrow> Inr (cleaned, b1))
                                                    else Inr (resultGeom, b1)))))))))"

text \<open>A loop that stops at the first exception: the results in order, or the first error.\<close>

fun collectResults :: "('e + 'a) list \<Rightarrow> 'e + 'a list" where
  "collectResults [] = Inr []"
| "collectResults (r # rs) =
     (case r of
        Inl exc \<Rightarrow> Inl exc
      | Inr v \<Rightarrow> (case collectResults rs of Inl exc \<Rightarrow> Inl exc | Inr vs \<Rightarrow> Inr (v # vs)))"

lemma component_smaller:
  "components g = Some gs \<Longrightarrow> n < length gs \<Longrightarrow> size (gs ! n) < size g"
proof -
  assume c: "components g = Some gs" and n: "n < length gs"
  then have "gs ! n \<in> set gs" by simp
  then have "size (gs ! n) \<le> size_list size gs"
    by (simp add: size_list_estimation')
  with c show ?thesis by (cases g) auto
qed

lemma getGeometryN_smaller:
  "1 < getNumGeometries g \<Longrightarrow> n < getNumGeometries g \<Longrightarrow> size (getGeometryN g n) < size g"
  by (cases "components g") (auto simp: getNumGeometries_def getGeometryN_def component_smaller)

text \<open>
  \<^verbatim>\<open>BufferBuilder::buffer\<close> (lines 366-571). With \<^verbatim>\<open>singleSided\<close> set and more
  than one component, each component is buffered by a builder of its own and the results are
  united; the builders of the components go out of scope and the called builder is not touched.
\<close>

function buffer ::
  "('pg, 'n, 'b, 'pb) Collaborators \<Rightarrow> BufferBuilder \<Rightarrow> Geometry \<Rightarrow> real
     \<Rightarrow> error + (Geometry \<times> BufferBuilder)"
where
  "buffer env b g distance =
     (if isSingleSided (bufParams b) \<and> getNumGeometries g > 1 then
        (case collectResults
                (map (\<lambda>i. let subbuilder = BufferBuilder_new (bufParams b);
                              subgeom = getGeometryN g i
                          in map_sum id fst (buffer env subbuilder subgeom distance))
                   [0..<getNumGeometries g]) of
           Inl exc \<Rightarrow> Inl exc
         | Inr geoms \<Rightarrow>
             (case unaryUnion env geoms of
                Inl exc \<Rightarrow> Inl exc
              | Inr united \<Rightarrow> Inr (united, b)))
      else bufferWhole env b g distance)"
  by pat_completeness auto
termination
  by (relation "measure (\<lambda>(env, b, g, distance). size g)")
     (auto simp: getGeometryN_smaller)


declare buffer.simps [simp del]

section \<open>BufferBuilder: bufferLineSingleSided\<close>

text \<open>
  Arithmetic on \<^verbatim>\<open>std::size_t\<close> (64 bits, unsigned): the result of an integer
  expression, wrapped.
\<close>

definition size_t :: "int \<Rightarrow> nat" where
  "size_t n = nat (n mod 2 ^ 64)"

text \<open>
  The two front loops of the clean-up (lines 283-305) are one loop run against the start point
  and then against the end point, and so are the two back loops (lines 307-324). Inside a loop
  \<^verbatim>\<open>sz > 1\<close> holds, so \<^verbatim>\<open>front + 1\<close>, \<^verbatim>\<open>back - 1\<close> and
  \<^verbatim>\<open>sz - 1\<close> do not wrap.
\<close>

function trimFront ::
  "('pg, 'n, 'b, 'pb) Collaborators \<Rightarrow> Coordinate list \<Rightarrow> Coordinate \<Rightarrow> real \<Rightarrow> real \<Rightarrow> nat \<Rightarrow> nat
     \<Rightarrow> nat \<times> nat"
where
  "trimFront env coords refPoint ptDistAllowance segLengthAllowance front sz =
     (if sz > 1 \<and> coordinateDistance env (coords ! front) refPoint < ptDistAllowance then
        (let segLength = coordinateDistance env (coords ! front) (coords ! (front + 1))
         in if segLength > segLengthAllowance then (front, sz)
            else trimFront env coords refPoint ptDistAllowance segLengthAllowance (front + 1) (sz - 1))
      else (front, sz))"
  by pat_completeness auto
termination
  by (relation "measure (\<lambda>(env, coords, refPoint, ptDistAllowance, segLengthAllowance, front, sz). sz)")
     auto

function trimBack ::
  "('pg, 'n, 'b, 'pb) Collaborators \<Rightarrow> Coordinate list \<Rightarrow> Coordinate \<Rightarrow> real \<Rightarrow> real \<Rightarrow> nat \<Rightarrow> nat
     \<Rightarrow> nat \<times> nat"
where
  "trimBack env coords refPoint ptDistAllowance segLengthAllowance back sz =
     (if sz > 1 \<and> coordinateDistance env (coords ! back) refPoint < ptDistAllowance then
        (let segLength = coordinateDistance env (coords ! back) (coords ! (back - 1))
         in if segLength > segLengthAllowance then (back, sz)
            else trimBack env coords refPoint ptDistAllowance segLengthAllowance (back - 1) (sz - 1))
      else (back, sz))"
  by pat_completeness auto
termination
  by (relation "measure (\<lambda>(env, coords, refPoint, ptDistAllowance, segLengthAllowance, back, sz). sz)")
     auto

declare trimFront.simps [simp del] trimBack.simps [simp del]

text \<open>
  The body of the loop over the merged lines (lines 258-341) for one merged line with the
  coordinates \<open>coords\<close>: the trimmed coordinates, or \<open>None\<close> when fewer than two points
  are left and no line is added. \<open>lineLength\<close> is \<^verbatim>\<open>l->getLength()\<close>. The two
  allowances are computed in doubles: each literal and each product or difference is rounded
  by \<open>toDouble\<close>, every operation on its own; \<^verbatim>\<open>std::max\<close> and the
  comparisons are exact on doubles.
\<close>

definition trimLine ::
  "('pg, 'n, 'b, 'pb) Collaborators \<Rightarrow> Coordinate list \<Rightarrow> Coordinate \<Rightarrow> Coordinate \<Rightarrow> real \<Rightarrow> real
     \<Rightarrow> Coordinate list option"
where
  "trimLine env coords startPoint endPoint distance lineLength =
     (let ptDistAllowance =
            max (toDouble env (distance - toDouble env (lineLength * toDouble env 0.1)))
                (toDouble env (distance * toDouble env 0.98));
          segLengthAllowance = toDouble env (toDouble env 1.02 * distance);
          front = 0;
          back = size_t (int (length coords) - 1);
          sz = size_t (int back - int front + 1);
          (front, sz) = trimFront env coords startPoint ptDistAllowance segLengthAllowance front sz;
          (front, sz) = trimFront env coords endPoint ptDistAllowance segLengthAllowance front sz;
          (back, sz) = trimBack env coords startPoint ptDistAllowance segLengthAllowance back sz;
          (back, sz) = trimBack env coords endPoint ptDistAllowance segLengthAllowance back sz
      in if sz > 1 then
           (if sz < length coords then Some (map (\<lambda>i. coords ! (i + front)) [0..<sz])
            else Some coords)
         else None)"

text \<open>
  The loop over the merged lines (lines 255-344): it takes them from the back, so the
  trimmed lines come out in reverse order.
\<close>

definition trimMergedLines ::
  "('pg, 'n, 'b, 'pb) Collaborators \<Rightarrow> Coordinate list list \<Rightarrow> Coordinate \<Rightarrow> Coordinate \<Rightarrow> real \<Rightarrow> real
     \<Rightarrow> Geometry list"
where
  "trimMergedLines env mergedLines startPoint endPoint distance lineLength =
     List.map_filter
       (\<lambda>coords. map_option LineString (trimLine env coords startPoint endPoint distance lineLength))
       (rev mergedLines)"

text \<open>The return statement (lines 354-363).\<close>

definition singleSidedResult :: "Geometry list \<Rightarrow> Geometry" where
  "singleSidedResult mergedLinesGeom =
     (if length mergedLinesGeom > 1 then MultiLineString mergedLinesGeom
      else if length mergedLinesGeom = 1 then mergedLinesGeom ! 0
      else LineString [])"

text \<open>
  \<^verbatim>\<open>BufferBuilder::bufferLineSingleSided\<close> from the choice of the precision model to
  the merged lines (lines 146-249), for the line with the coordinates \<open>lcoords\<close>: the
  two-sided buffer with a flat cap by a temporary builder and its boundary, the raw
  single-sided offset curve and its noding, the snapped intersection of the two and the
  merging of the result into lines.
\<close>

definition singleSidedMergedLines ::
  "('pg, 'n, 'b, 'pb) Collaborators \<Rightarrow> BufferBuilder \<Rightarrow> Coordinate list \<Rightarrow> real \<Rightarrow> bool
     \<Rightarrow> error + (Coordinate list list \<times> BufferBuilder)"
where
  "singleSidedMergedLines env b lcoords distance leftSide =
     (let l = LineString lcoords;
          precisionModel = (case workingPrecisionModel b of
                              None \<Rightarrow> getPrecisionModel env l
                            | Some pm \<Rightarrow> pm);
          modParams = (bufParams b)\<lparr>endCapStyle := CAP_FLAT, singleSided := False\<rparr>;
          tmpBB = BufferBuilder_new modParams
      in case buffer env tmpBB l distance of
           Inl exc \<Rightarrow> Inl exc
         | Inr (buf, tmpBB') \<Rightarrow>
             (let bufLineString = getBoundary env buf;
                  lineList = getSingleSidedLineCurve env precisionModel modParams lcoords
                               distance leftSide (\<not> leftSide);
                  curveList = map (\<lambda>seq. \<lparr>ssCoords = seq, ssData = None\<rparr>) lineList;
                  (noder, b1) = getNoder env b precisionModel;
                  nodedEdges = noder curveList;
                  singleSidedNodedEdges = map (\<lambda>ss. LineString (ssCoords ss)) nodedEdges;
                  singleSided = MultiLineString singleSidedNodedEdges
              in case snapIntersection env singleSided bufLineString of
                   Inl exc \<Rightarrow> Inl exc
                 | Inr intersectedLines \<Rightarrow> Inr (getMergedLineStrings env intersectedLines, b1)))"

text \<open>
  \<^verbatim>\<open>BufferBuilder::bufferLineSingleSided\<close> (lines 129-364). The dynamic cast succeeds
  on a LineString only. The references \<^verbatim>\<open>startPoint\<close> and \<^verbatim>\<open>endPoint\<close> are
  taken from the input line; for an input without coordinates they refer to nothing, and
  the source's behaviour is undefined when there is a merged line to trim against them.
\<close>

definition bufferLineSingleSided ::
  "('pg, 'n, 'b, 'pb) Collaborators \<Rightarrow> BufferBuilder \<Rightarrow> Geometry \<Rightarrow> real \<Rightarrow> bool
     \<Rightarrow> error + (Geometry \<times> BufferBuilder)"
where
  "bufferLineSingleSided env b g distance leftSide =
     (case g of
        LineString lcoords \<Rightarrow>
          if distance = 0 then Inr (clone g, b)
          else
            (case singleSidedMergedLines env b lcoords distance leftSide of
               Inl exc \<Rightarrow> Inl exc
             | Inr (mergedLines, b1) \<Rightarrow>
                 if lcoords = [] then
                   (if mergedLines = [] then Inr (singleSidedResult [], b1)
                    else Inl UndefinedBehaviour)
                 else
                   (let startPoint = hd lcoords;
                        endPoint = last lcoords;
                        mergedLinesGeom = trimMergedLines env mergedLines startPoint endPoint
                                            distance (getLength env lcoords)
                    in Inr (singleSidedResult mergedLinesGeom, b1)))
      | _ \<Rightarrow> Inl IllegalArgumentException)"


section \<open>The endpoint trimming, on lists\<close>

text \<open>
  Shrinking a polyline from its front against one reference point: the first vertex goes
  while more than one point is left, it is closer to the reference point than the point
  allowance and the segment to its neighbour is no longer than the segment allowance.
  Shrinking from the back is the same on the reversed polyline. The distances are those of
  \<open>coordinateDistance\<close>.
\<close>

fun shrinkFront ::
  "('pg, 'n, 'b, 'pb) Collaborators \<Rightarrow> Coordinate \<Rightarrow> real \<Rightarrow> real \<Rightarrow> Coordinate list \<Rightarrow> Coordinate list"
where
  "shrinkFront env refPoint ptDistAllowance segLengthAllowance (p # q # rest) =
     (if coordinateDistance env p refPoint < ptDistAllowance
         \<and> coordinateDistance env p q \<le> segLengthAllowance
      then shrinkFront env refPoint ptDistAllowance segLengthAllowance (q # rest)
      else p # q # rest)"
| "shrinkFront env refPoint ptDistAllowance segLengthAllowance ps = ps"

definition shrinkBack ::
  "('pg, 'n, 'b, 'pb) Collaborators \<Rightarrow> Coordinate \<Rightarrow> real \<Rightarrow> real \<Rightarrow> Coordinate list \<Rightarrow> Coordinate list"
where
  "shrinkBack env refPoint ptDistAllowance segLengthAllowance ps =
     rev (shrinkFront env refPoint ptDistAllowance segLengthAllowance (rev ps))"

text \<open>
  The allowances in the words of the spec, \<open>max (|d| - 0.1 * length) (0.98 * |d|)\<close> and
  \<open>1.02 * |d|\<close>, computed in doubles (the absolute value of a double is exact).
\<close>

definition pointAllowance :: "('pg, 'n, 'b, 'pb) Collaborators \<Rightarrow> real \<Rightarrow> real \<Rightarrow> real" where
  "pointAllowance env d lineLength =
     max (toDouble env (\<bar>d\<bar> - toDouble env (lineLength * toDouble env 0.1)))
         (toDouble env (\<bar>d\<bar> * toDouble env 0.98))"

definition segmentAllowance :: "('pg, 'n, 'b, 'pb) Collaborators \<Rightarrow> real \<Rightarrow> real" where
  "segmentAllowance env d = toDouble env (toDouble env 1.02 * \<bar>d\<bar>)"

text \<open>
  The trimming in four passes: at the front against the start point and then against the end
  point, at the back likewise.
\<close>

definition trimSequential ::
  "('pg, 'n, 'b, 'pb) Collaborators \<Rightarrow> Coordinate list \<Rightarrow> Coordinate \<Rightarrow> Coordinate \<Rightarrow> real \<Rightarrow> real
     \<Rightarrow> Coordinate list"
where
  "trimSequential env coords startPoint endPoint distance lineLength =
     (let pa = pointAllowance env distance lineLength;
          sa = segmentAllowance env distance
      in shrinkBack env endPoint pa sa (shrinkBack env startPoint pa sa
           (shrinkFront env endPoint pa sa (shrinkFront env startPoint pa sa coords))))"

text \<open>
  The trimming in the words of the spec: an end vertex goes while more than one point is
  left, it lies within the point allowance of the start point or of the end point, and the
  adjacent segment is no longer than the segment allowance.
\<close>

fun shrinkEither ::
  "('pg, 'n, 'b, 'pb) Collaborators \<Rightarrow> Coordinate \<Rightarrow> Coordinate \<Rightarrow> real \<Rightarrow> real \<Rightarrow> Coordinate list
     \<Rightarrow> Coordinate list"
where
  "shrinkEither env startPoint endPoint ptDistAllowance segLengthAllowance (p # q # rest) =
     (if (coordinateDistance env p startPoint < ptDistAllowance
            \<or> coordinateDistance env p endPoint < ptDistAllowance)
         \<and> coordinateDistance env p q \<le> segLengthAllowance
      then shrinkEither env startPoint endPoint ptDistAllowance segLengthAllowance (q # rest)
      else p # q # rest)"
| "shrinkEither env startPoint endPoint ptDistAllowance segLengthAllowance ps = ps"

definition trimAsSpecified ::
  "('pg, 'n, 'b, 'pb) Collaborators \<Rightarrow> Coordinate list \<Rightarrow> Coordinate \<Rightarrow> Coordinate \<Rightarrow> real \<Rightarrow> real
     \<Rightarrow> Coordinate list"
where
  "trimAsSpecified env coords startPoint endPoint distance lineLength =
     (let pa = pointAllowance env distance lineLength;
          sa = segmentAllowance env distance
      in rev (shrinkEither env startPoint endPoint pa sa
           (rev (shrinkEither env startPoint endPoint pa sa coords))))"

text \<open>
  The lines the clean-up is said to leave: the merged lines taken from the back, each trimmed
  and kept when more than one point is left.
\<close>

definition trimmedLines ::
  "(Coordinate list \<Rightarrow> Coordinate list) \<Rightarrow> Coordinate list list \<Rightarrow> Geometry list"
where
  "trimmedLines trim mergedLines =
     map LineString (filter (\<lambda>cs. 1 < length cs) (map trim (rev mergedLines)))"

section \<open>Concrete instances\<close>

text \<open>Small concrete values on which the theorems below are instantiated.\<close>

definition noLocation :: TopologyLocation where
  "noLocation = \<lparr>locOn = NONE, locLeft = NONE, locRight = NONE\<rparr>"

definition labelInteriorLeft :: Label where
  "labelInteriorLeft =
     \<lparr>elt0 = \<lparr>locOn = BOUNDARY, locLeft = INTERIOR, locRight = EXTERIOR\<rparr>, elt1 = noLocation\<rparr>"

definition labelInteriorRight :: Label where
  "labelInteriorRight =
     \<lparr>elt0 = \<lparr>locOn = BOUNDARY, locLeft = EXTERIOR, locRight = INTERIOR\<rparr>, elt1 = noLocation\<rparr>"

definition labelInteriorBoth :: Label where
  "labelInteriorBoth =
     \<lparr>elt0 = \<lparr>locOn = BOUNDARY, locLeft = INTERIOR, locRight = INTERIOR\<rparr>, elt1 = noLocation\<rparr>"

definition pt :: "real \<Rightarrow> real \<Rightarrow> Coordinate" where
  "pt a b = \<lparr>cx = a, cy = b\<rparr>"

definition edgeForward :: Edge where
  "edgeForward = \<lparr>edgePts = [pt 0 0, pt 1 0], edgeLabel = labelInteriorLeft, edgeDepthDelta = 1\<rparr>"

definition edgeBackward :: Edge where
  "edgeBackward = \<lparr>edgePts = [pt 1 0, pt 0 0], edgeLabel = labelInteriorLeft, edgeDepthDelta = 0\<rparr>"

definition edgeOther :: Edge where
  "edgeOther = \<lparr>edgePts = [pt 1 0, pt 1 1], edgeLabel = labelInteriorRight, edgeDepthDelta = 0\<rparr>"

definition defaultParams :: BufferParameters where
  "defaultParams = \<lparr>endCapStyle = CAP_ROUND, joinStyle = JOIN_ROUND, quadrantSegments = 8,
                     mitreLimit = 5, singleSided = False, simplifyFactor = 1 / 100\<rparr>"

definition builderOneEdge :: BufferBuilder where
  "builderOneEdge = (BufferBuilder_new defaultParams)\<lparr>edgeList := [edgeForward]\<rparr>"

definition edgeFull :: Edge where
  "edgeFull = \<lparr>edgePts = [pt 0 0, pt 1 0], edgeLabel = labelInteriorLeft,
                edgeDepthDelta = 2147483647\<rparr>"

definition builderFullEdge :: BufferBuilder where
  "builderFullEdge = (BufferBuilder_new defaultParams)\<lparr>edgeList := [edgeFull]\<rparr>"

definition capLine :: "Coordinate list" where
  "capLine = [pt 60 80, pt 0 80, pt 0 144, pt 60 144]"

definition hairpin :: "Coordinate list" where
  "hairpin = [pt 0 0, pt 0 (- 300), pt 60 (- 300), pt 60 0]"

text \<open>
  The arithmetic of IEEE 754 doubles (binary64), for the instances: the rounding of a real
  number to the nearest double, ties to the even significand, in the range of the normal
  doubles (overflow and gradual underflow are left out); the distance of two coordinates as
  \<^verbatim>\<open>sqrt(dx * dx + dy * dy)\<close> and the length of a chain as the sum of the lengths of
  its segments, every operation rounded.
\<close>

definition roundHalfEven :: "real \<Rightarrow> int" where
  "roundHalfEven q =
     (let f = \<lfloor>q\<rfloor>; r = q - of_int f
      in if r < 1 / 2 then f else if 1 / 2 < r then f + 1
         else if even f then f else f + 1)"

definition roundDouble :: "real \<Rightarrow> real" where
  "roundDouble x =
     (if x = 0 then 0
      else (let u = 2 powr (of_int \<lfloor>log 2 \<bar>x\<bar>\<rfloor> - 52)
            in u * of_int (roundHalfEven (x / u))))"

definition doubleDistance :: "Coordinate \<Rightarrow> Coordinate \<Rightarrow> real" where
  "doubleDistance p q =
     (let dx = roundDouble (cx p - cx q);
          dy = roundDouble (cy p - cy q)
      in roundDouble (sqrt (roundDouble (roundDouble (dx * dx) + roundDouble (dy * dy)))))"

fun lengthFrom :: "real \<Rightarrow> Coordinate list \<Rightarrow> real" where
  "lengthFrom len (p # q # rest) = lengthFrom (roundDouble (len + doubleDistance p q)) (q # rest)"
| "lengthFrom len ps = len"

definition doubleLength :: "Coordinate list \<Rightarrow> real" where
  "doubleLength cs = lengthFrom 0 cs"

text \<open>The insertion sort, one of the sorts \<^verbatim>\<open>std::sort\<close> may be.\<close>

fun insertSorted :: "('a \<Rightarrow> 'a \<Rightarrow> bool) \<Rightarrow> 'a \<Rightarrow> 'a list \<Rightarrow> 'a list" where
  "insertSorted cmp a [] = [a]"
| "insertSorted cmp a (c # cs) =
     (if cmp c a then c # insertSorted cmp a cs else a # c # cs)"

definition insertionSort :: "('a \<Rightarrow> 'a \<Rightarrow> bool) \<Rightarrow> 'a list \<Rightarrow> 'a list" where
  "insertionSort cmp elems = foldr (insertSorted cmp) elems []"

text \<open>
  A small world of collaborators: a line at a positive distance has itself as its only
  curve and nothing has curves otherwise; the single-sided curve of a line is the line moved
  up (left side) or down by the distance; the noder returns what it is given; every edge of the
  graph is a node and a subgraph of its own, with its first point as the rightmost coordinate;
  the depth of a point is the number of subgraphs processed so far and a subgraph records the
  depth it was given; the polygon builder collects one polygon for each subgraph; the area of a
  polygon is the area of its shell by the surveyor's formula; the sort is the insertion sort
  and the arithmetic that of IEEE 754 doubles.
\<close>

fun ringArea2 :: "Coordinate list \<Rightarrow> real" where
  "ringArea2 (p # q # rest) = cx p * cy q - cx q * cy p + ringArea2 (q # rest)"
| "ringArea2 ps = 0"

definition firstPoint :: "Coordinate list \<Rightarrow> Coordinate" where
  "firstPoint cs = (case cs of [] \<Rightarrow> pt 0 0 | p # rest \<Rightarrow> p)"

definition smallWorld :: "((Coordinate \<times> bool) list, nat, int option, Geometry list) Collaborators" where
  "smallWorld =
     \<lparr>getPrecisionModel = (\<lambda>g. Floating),
      getDimension = (\<lambda>g. case g of Point cs \<Rightarrow> 0 | LineString cs \<Rightarrow> 1 | Polygon sh hs \<Rightarrow> 2
                               | MultiPoint gs \<Rightarrow> 0 | MultiLineString gs \<Rightarrow> 1 | MultiPolygon gs \<Rightarrow> 2
                               | GeometryCollection gs \<Rightarrow> 2),
      getBoundary = (\<lambda>g. case g of Polygon sh hs \<Rightarrow> MultiLineString (map LineString (sh # hs))
                              | other \<Rightarrow> GeometryCollection []),
      getArea = (\<lambda>g. case g of Polygon sh hs \<Rightarrow> \<bar>ringArea2 sh\<bar> / 2 | other \<Rightarrow> 0),
      getCurves = (\<lambda>g distance pm params invert.
                     if distance \<le> 0 then []
                     else (case g of LineString cs \<Rightarrow> [\<lparr>ssCoords = cs, ssData = Some labelInteriorLeft\<rparr>]
                                   | other \<Rightarrow> [])),
      getSingleSidedLineCurve =
        (\<lambda>pm params cs distance leftSide rightSide.
           [map (\<lambda>p. pt (cx p) (cy p + (if leftSide then distance else - distance))) cs]),
      MCIndexNoder = (\<lambda>pm segStrs. segStrs),
      addEdges = (\<lambda>edges. map (\<lambda>e. (firstPoint (edgePts e), False)) edges),
      getNodes = (\<lambda>graph. [0..<length graph]),
      isVisited = (\<lambda>graph node. snd (graph ! node)),
      create = (\<lambda>graph node. Inr (\<lparr>rightMostCoord = fst (graph ! node), sgBody = None\<rparr>,
                                    graph[node := (fst (graph ! node), True)])),
      getDepth = (\<lambda>processedGraphs p. int (length processedGraphs)),
      computeDepth = (\<lambda>subgraph outsideDepth. Inr (subgraph\<lparr>sgBody := Some outsideDepth\<rparr>)),
      findResultEdges = (\<lambda>subgraph. subgraph),
      newPolygonBuilder = [],
      polyBuilderAdd = (\<lambda>subgraph polys. Inr (subgraph, polys @ [Polygon [rightMostCoord subgraph] []])),
      getPolygons = (\<lambda>polys. polys),
      buildGeometry = (\<lambda>gs. case gs of [g] \<Rightarrow> g | other \<Rightarrow> MultiPolygon gs),
      overlayUnion = (\<lambda>g h. Inr (GeometryCollection [g, h])),
      polygonize = (\<lambda>g. []),
      unaryUnion = (\<lambda>gs. Inr (GeometryCollection gs)),
      snapIntersection = (\<lambda>g h. Inr g),
      getMergedLineStrings = (\<lambda>g. case g of MultiLineString ls \<Rightarrow>
                                          concat (map (\<lambda>l. case l of LineString cs \<Rightarrow> [cs] | other \<Rightarrow> []) ls)
                                        | other \<Rightarrow> []),
      interruptRequested = (\<lambda>k. False),
      std_sort = insertionSort,
      toDouble = roundDouble,
      coordinateDistance = doubleDistance,
      getLength = doubleLength\<rparr>"

definition unitLine :: Geometry where
  "unitLine = LineString [pt 0 0, pt 1 0]"

definition otherLine :: Geometry where
  "otherLine = LineString [pt 0 5, pt 1 5]"

definition sampleCurves :: "SegmentString list" where
  "sampleCurves =
     [\<lparr>ssCoords = [pt 0 0, pt 1 0, pt 1 0], ssData = Some labelInteriorLeft\<rparr>,
      \<lparr>ssCoords = [pt 2 2, pt 2 2], ssData = Some labelInteriorLeft\<rparr>,
      \<lparr>ssCoords = [pt 1 0, pt 0 0], ssData = Some labelInteriorRight\<rparr>]"

definition nodedBuilder :: BufferBuilder where
  "nodedBuilder =
     (BufferBuilder_new defaultParams)
       \<lparr>li := Some Floating,
        edgeList := [\<lparr>edgePts = [pt 0 0, pt 1 0],
                      edgeLabel = merge labelInteriorLeft labelInteriorLeft,
                      edgeDepthDelta = 2\<rparr>]\<rparr>"


definition sg :: "real \<Rightarrow> int option \<Rightarrow> int option BufferSubgraph" where
  "sg a depth = \<lparr>rightMostCoord = pt a 0, sgBody = depth\<rparr>"

definition singleSidedParams :: BufferParameters where
  "singleSidedParams = defaultParams\<lparr>singleSided := True\<rparr>"

definition twoLines :: Geometry where
  "twoLines = MultiLineString [unitLine, otherLine]"

definition lineBuilder :: "BufferParameters \<Rightarrow> Coordinate list \<Rightarrow> BufferBuilder" where
  "lineBuilder params cs =
     (BufferBuilder_new params)
       \<lparr>li := Some Floating,
        edgeList := [\<lparr>edgePts = cs, edgeLabel = labelInteriorLeft, edgeDepthDelta = 1\<rparr>]\<rparr>"

definition mergerWorld ::
  "(Geometry \<Rightarrow> Coordinate list list)
     \<Rightarrow> ((Coordinate \<times> bool) list, nat, int option, Geometry list) Collaborators"
where
  "mergerWorld merger = smallWorld\<lparr>getMergedLineStrings := merger\<rparr>"

definition capWorld :: "((Coordinate \<times> bool) list, nat, int option, Geometry list) Collaborators" where
  "capWorld = mergerWorld (\<lambda>g. [capLine])"

definition unitSquare :: Geometry where
  "unitSquare = Polygon [pt 0 0, pt 1 0, pt 1 1, pt 0 1, pt 0 0] []"

definition bigSquare :: Geometry where
  "bigSquare = Polygon [pt 0 0, pt 2 0, pt 2 2, pt 0 2, pt 0 0] []"

definition halfSquare :: Geometry where
  "halfSquare = Polygon [pt 0 0, pt 1 0, pt 0 1, pt 0 0] []"

definition squareWorld :: "((Coordinate \<times> bool) list, nat, int option, Geometry list) Collaborators" where
  "squareWorld = smallWorld\<lparr>polygonize := (\<lambda>g. [unitSquare, bigSquare, halfSquare])\<rparr>"




text \<open>
  The double nearest to 0.98, and a merged line whose first vertex is at just that distance
  from the origin.
\<close>

definition nearest098 :: real where
  "nearest098 = 2206763817411543 / 2251799813685248"

definition thresholdLine :: "Coordinate list" where
  "thresholdLine = [pt nearest098 0, pt nearest098 1, pt nearest098 2]"

definition thresholdWorld :: "((Coordinate \<times> bool) list, nat, int option, Geometry list) Collaborators" where
  "thresholdWorld = mergerWorld (\<lambda>g. [thresholdLine])"

section \<open>Properties of edge unification\<close>

lemma findEqualEdge_Some:
  "findEqualEdge el e = Some i \<Longrightarrow> i < length el \<and> equalEdge (el ! i) e"
proof (induction el arbitrary: i)
  case Nil
  then show ?case by simp
next
  case (Cons a rest)
  show ?case
  proof (cases "equalEdge a e")
    case True
    with Cons.prems show ?thesis by simp
  next
    case False
    with Cons.prems obtain j where j: "findEqualEdge rest e = Some j" "i = Suc j"
      by auto
    with Cons.IH [of j] show ?thesis by simp
  qed
qed

lemma findEqualEdge_None:
  "findEqualEdge el e = None \<longleftrightarrow> (\<forall>a \<in> set el. \<not> equalEdge a e)"
  by (induction el) auto

lemma findEqualEdge_holds:
  "(\<exists>a \<in> set el. equalEdge a e) \<Longrightarrow> \<exists>i. findEqualEdge el e = Some i"
  using findEqualEdge_None [of el e] by (cases "findEqualEdge el e") auto

lemma equalEdge_trans: "equalEdge a e \<Longrightarrow> equalEdge b e \<Longrightarrow> equalEdge a b"
  by (auto simp: equalEdge_def)

lemma depthDelta_flip: "depthDelta (flip l) = - depthDelta l"
  by (auto simp: depthDelta_def flip_def tlFlip_def getLocation_def tlGet_def Let_def)

lemma depthDelta_range: "depthDelta l \<in> {- 1, 0, 1}"
  by (simp add: depthDelta_def Let_def)

lemma insertUniqueEdge_map_pts:
  "map edgePts (edgeList (insertUniqueEdge b e)) =
     (case findEqualEdge (edgeList b) e of
        Some i \<Rightarrow> map edgePts (edgeList b)
      | None \<Rightarrow> map edgePts (edgeList b) @ [edgePts e])"
proof (cases "findEqualEdge (edgeList b) e")
  case None
  then show ?thesis by (simp add: insertUniqueEdge_def EdgeList_add_def)
next
  case (Some i)
  then have "i < length (edgeList b)" using findEqualEdge_Some by blast
  then have "map edgePts ((edgeList b)[i := (edgeList b ! i)\<lparr>edgeLabel := l, edgeDepthDelta := d\<rparr>])
               = map edgePts (edgeList b)" for l d
    by (simp add: map_update list_update_same_conv)
  with Some show ?thesis by (simp add: insertUniqueEdge_def Let_def)
qed

lemma insertUniqueEdge_unique:
  assumes "uniqueChains (map edgePts (edgeList b))"
  shows "uniqueChains (map edgePts (edgeList (insertUniqueEdge b e)))"
proof (cases "findEqualEdge (edgeList b) e")
  case (Some i)
  with assms show ?thesis by (simp add: insertUniqueEdge_map_pts)
next
  case None
  then have no: "\<forall>a \<in> set (edgeList b). \<not> equalEdge a e"
    by (simp add: findEqualEdge_None)
  let ?cs = "map edgePts (edgeList b)"
  have new: "?cs ! i \<noteq> edgePts e \<and> ?cs ! i \<noteq> rev (edgePts e) \<and> rev (?cs ! i) \<noteq> edgePts e"
    if "i < length ?cs" for i
  proof -
    from that have "edgeList b ! i \<in> set (edgeList b)" by simp
    with no have "\<not> equalEdge (edgeList b ! i) e" by blast
    with that show ?thesis by (auto simp: equalEdge_def rev_swap)
  qed
  have "i = j" if "i < length (?cs @ [edgePts e])" "j < length (?cs @ [edgePts e])"
    "(?cs @ [edgePts e]) ! i = (?cs @ [edgePts e]) ! j \<or>
     (?cs @ [edgePts e]) ! i = rev ((?cs @ [edgePts e]) ! j)" for i j
  proof (cases "i < length ?cs"; cases "j < length ?cs")
    assume ij: "i < length ?cs" "j < length ?cs"
    with that(3) have "?cs ! i = ?cs ! j \<or> ?cs ! i = rev (?cs ! j)"
      by (simp add: nth_append)
    with ij assms show ?thesis
      unfolding uniqueChains_def by blast
  next
    assume i: "i < length ?cs" and j: "\<not> j < length ?cs"
    with that(2) have "j = length ?cs" by simp
    with i that(3) new [OF i] show ?thesis by (simp add: nth_append)
  next
    assume i: "\<not> i < length ?cs" and j: "j < length ?cs"
    with that(1) have "i = length ?cs" by simp
    with j that(3) new [OF j] show ?thesis by (auto simp: nth_append)
  next
    assume "\<not> i < length ?cs" "\<not> j < length ?cs"
    with that(1,2) show ?thesis by simp
  qed
  then have "uniqueChains (?cs @ [edgePts e])"
    unfolding uniqueChains_def by blast
  with None show ?thesis by (simp add: insertUniqueEdge_map_pts)
qed

lemma findEqualEdge_unique:
  assumes "uniqueChains (map edgePts (edgeList b))"
    and "i < length (edgeList b)" and "equalEdge (edgeList b ! i) e"
  shows "findEqualEdge (edgeList b) e = Some i"
proof -
  from assms(2,3) have "\<exists>a \<in> set (edgeList b). equalEdge a e" by auto
  then obtain k where k: "findEqualEdge (edgeList b) e = Some k"
    using findEqualEdge_holds by blast
  then have kb: "k < length (edgeList b)" and ke: "equalEdge (edgeList b ! k) e"
    using findEqualEdge_Some by blast+
  from ke assms(3) have "equalEdge (edgeList b ! k) (edgeList b ! i)"
    by (rule equalEdge_trans)
  then have "map edgePts (edgeList b) ! k = map edgePts (edgeList b) ! i \<or>
             map edgePts (edgeList b) ! k = rev (map edgePts (edgeList b) ! i)"
    using kb assms(2) by (simp add: equalEdge_def)
  moreover have "k < length (map edgePts (edgeList b))" "i < length (map edgePts (edgeList b))"
    using kb assms(2) by simp_all
  ultimately have "k = i"
    using assms(1) unfolding uniqueChains_def by blast
  with k show ?thesis by simp
qed

lemma int32_range: "- (2 ^ 31) \<le> int32 n \<and> int32 n < 2 ^ 31"
proof -
  have "0 \<le> (n + 2 ^ 31) mod 2 ^ 32" "(n + 2 ^ 31) mod 2 ^ 32 < (2 ^ 32 :: int)"
    by simp_all
  then show ?thesis by (simp add: int32_def)
qed

lemma int32_small: "- (2 ^ 31) \<le> n \<Longrightarrow> n < 2 ^ 31 \<Longrightarrow> int32 n = n"
  by (simp add: int32_def)

text \<open>
  C1. When the edge list already holds an edge equal to \<open>e\<close> (the same coordinate chain
  or its reverse), \<open>insertUniqueEdge\<close> finds it; the incoming label is flipped exactly
  when \<open>e\<close> is not pointwise equal to the existing edge; the existing edge's label
  becomes the merge of its label with that label, its depth delta becomes its previous value
  plus the depth delta of that label, its coordinates stay, every other edge is untouched and
  the list does not grow. The sum is the sum of two C++ \<^verbatim>\<open>int\<close>s: it is the sum of
  the integers whenever that lies from -2^31 to 2^31 - 1, and is wrapped into this range
  otherwise.
\<close>

theorem insertUniqueEdge_existing:
  assumes "\<exists>a \<in> set (edgeList b). equalEdge a e"
  shows "\<exists>i < length (edgeList b).
           findEqualEdge (edgeList b) e = Some i \<and> equalEdge (edgeList b ! i) e \<and>
           (let existingEdge = edgeList b ! i;
                labelToMerge = (if isPointwiseEqual existingEdge e
                                then edgeLabel e else flip (edgeLabel e));
                result = edgeList (insertUniqueEdge b e)
            in length result = length (edgeList b)
             \<and> edgeLabel (result ! i) = merge (edgeLabel existingEdge) labelToMerge
             \<and> edgeDepthDelta (result ! i) = int32 (edgeDepthDelta existingEdge + depthDelta labelToMerge)
             \<and> (- (2 ^ 31) \<le> edgeDepthDelta existingEdge + depthDelta labelToMerge \<and>
                 edgeDepthDelta existingEdge + depthDelta labelToMerge < 2 ^ 31 \<longrightarrow>
                 edgeDepthDelta (result ! i) = edgeDepthDelta existingEdge + depthDelta labelToMerge)
             \<and> - (2 ^ 31) \<le> edgeDepthDelta (result ! i) \<and> edgeDepthDelta (result ! i) < 2 ^ 31
             \<and> edgePts (result ! i) = edgePts existingEdge
             \<and> (\<forall>j < length (edgeList b). j \<noteq> i \<longrightarrow> result ! j = edgeList b ! j))"
proof -
  from assms obtain i where i: "findEqualEdge (edgeList b) e = Some i"
    using findEqualEdge_holds by blast
  then have bound: "i < length (edgeList b)" and eq: "equalEdge (edgeList b ! i) e"
    using findEqualEdge_Some by blast+
  define l where "l = (if isPointwiseEqual (edgeList b ! i) e then edgeLabel e else flip (edgeLabel e))"
  define s where "s = edgeDepthDelta (edgeList b ! i) + depthDelta l"
  have "edgeList (insertUniqueEdge b e) =
          (edgeList b)[i := (edgeList b ! i)\<lparr>edgeLabel := merge (edgeLabel (edgeList b ! i)) l,
            edgeDepthDelta := int32 s\<rparr>]"
    by (simp add: insertUniqueEdge_def i Let_def l_def s_def)
  moreover have "- (2 ^ 31) \<le> s \<and> s < 2 ^ 31 \<longrightarrow> int32 s = s"
    by (simp add: int32_small)
  moreover note int32_range [of s]
  ultimately show ?thesis
    using i bound eq
    by (intro exI [of _ i]) (simp add: Let_def l_def [symmetric] s_def [symmetric])
qed

theorem insertUniqueEdge_existing_witness:
  "(\<exists>a \<in> set (edgeList builderOneEdge). equalEdge a edgeBackward) \<and>
   \<not> isPointwiseEqual edgeForward edgeBackward \<and>
   edgeList (insertUniqueEdge builderOneEdge edgeBackward) =
     [edgeForward\<lparr>edgeLabel := merge labelInteriorLeft labelInteriorRight, edgeDepthDelta := 0\<rparr>] \<and>
   (\<exists>a \<in> set (edgeList builderFullEdge). equalEdge a edgeForward) \<and>
   isPointwiseEqual edgeFull edgeForward \<and>
   edgeList (insertUniqueEdge builderFullEdge edgeForward) =
     [edgeFull\<lparr>edgeLabel := merge labelInteriorLeft labelInteriorLeft,
               edgeDepthDelta := - 2147483648\<rparr>]"
proof -
  let ?r = "edgeList (insertUniqueEdge builderOneEdge edgeBackward)"
  let ?q = "edgeList (insertUniqueEdge builderFullEdge edgeForward)"
  have el: "edgeList builderOneEdge = [edgeForward]"
    by (simp add: builderOneEdge_def BufferBuilder_new_def)
  have h: "\<exists>a \<in> set (edgeList builderOneEdge). equalEdge a edgeBackward"
    by (simp add: el equalEdge_def edgeForward_def edgeBackward_def)
  have np: "\<not> isPointwiseEqual edgeForward edgeBackward"
    by (simp add: isPointwiseEqual_def edgeForward_def edgeBackward_def pt_def)
  have fl: "flip labelInteriorLeft = labelInteriorRight"
    by (simp add: flip_def tlFlip_def labelInteriorLeft_def labelInteriorRight_def noLocation_def)
  have dd: "depthDelta labelInteriorRight = - 1" "depthDelta labelInteriorLeft = 1"
    by (simp_all add: depthDelta_def getLocation_def tlGet_def labelInteriorRight_def
          labelInteriorLeft_def)
  from insertUniqueEdge_existing [OF h] np fl dd
  have "length ?r = 1"
    and "edgeLabel (?r ! 0) = merge labelInteriorLeft labelInteriorRight"
    and "edgeDepthDelta (?r ! 0) = 0"
    and "edgePts (?r ! 0) = edgePts edgeForward"
    by (simp_all add: el Let_def edgeForward_def edgeBackward_def)
  then have r: "?r =
     [edgeForward\<lparr>edgeLabel := merge labelInteriorLeft labelInteriorRight, edgeDepthDelta := 0\<rparr>]"
    by (cases ?r) (simp_all add: edgeForward_def)
  have el2: "edgeList builderFullEdge = [edgeFull]"
    by (simp add: builderFullEdge_def BufferBuilder_new_def)
  have h2: "\<exists>a \<in> set (edgeList builderFullEdge). equalEdge a edgeForward"
    by (simp add: el2 equalEdge_def edgeForward_def edgeFull_def)
  have p2: "isPointwiseEqual edgeFull edgeForward"
    by (simp add: isPointwiseEqual_def edgeForward_def edgeFull_def)
  have wrap: "int32 (2147483647 + 1) = - 2147483648"
    by (simp add: int32_def)
  from insertUniqueEdge_existing [OF h2] p2 dd wrap
  have "length ?q = 1"
    and "edgeLabel (?q ! 0) = merge labelInteriorLeft labelInteriorLeft"
    and "edgeDepthDelta (?q ! 0) = - 2147483648"
    and "edgePts (?q ! 0) = edgePts edgeFull"
    by (simp_all add: el2 Let_def edgeForward_def edgeFull_def)
  then have q: "?q =
     [edgeFull\<lparr>edgeLabel := merge labelInteriorLeft labelInteriorLeft,
               edgeDepthDelta := - 2147483648\<rparr>]"
    by (cases ?q) (simp_all add: edgeFull_def)
  from h np r h2 p2 q show ?thesis by blast
qed

text \<open>
  C2. \<open>depthDelta\<close> is +1 for a label whose geometry-0 locations are LEFT = INTERIOR and
  RIGHT = EXTERIOR, -1 for LEFT = EXTERIOR and RIGHT = INTERIOR, and 0 otherwise; and an
  edge with no equal edge in the list is appended to it with its depth delta set to
  \<open>depthDelta\<close> of its own label.
\<close>

theorem depthDelta_cases_and_new_edge:
  "(getLocation l 0 LEFT = INTERIOR \<and> getLocation l 0 RIGHT = EXTERIOR \<longrightarrow> depthDelta l = 1) \<and>
   (getLocation l 0 LEFT = EXTERIOR \<and> getLocation l 0 RIGHT = INTERIOR \<longrightarrow> depthDelta l = - 1) \<and>
   (\<not> (getLocation l 0 LEFT = INTERIOR \<and> getLocation l 0 RIGHT = EXTERIOR) \<and>
    \<not> (getLocation l 0 LEFT = EXTERIOR \<and> getLocation l 0 RIGHT = INTERIOR) \<longrightarrow> depthDelta l = 0) \<and>
   ((\<forall>a \<in> set (edgeList b). \<not> equalEdge a e) \<longrightarrow>
      edgeList (insertUniqueEdge b e) =
        edgeList b @ [e\<lparr>edgeDepthDelta := depthDelta (edgeLabel e)\<rparr>])"
proof -
  have "edgeList (insertUniqueEdge b e) =
          edgeList b @ [e\<lparr>edgeDepthDelta := depthDelta (edgeLabel e)\<rparr>]"
    if "\<forall>a \<in> set (edgeList b). \<not> equalEdge a e"
  proof -
    from that have "findEqualEdge (edgeList b) e = None"
      by (simp add: findEqualEdge_None)
    then show ?thesis
      by (simp add: insertUniqueEdge_def EdgeList_add_def)
  qed
  then show ?thesis
    by (auto simp: depthDelta_def Let_def)
qed

theorem depthDelta_cases_and_new_edge_witness:
  "depthDelta labelInteriorLeft = 1 \<and> depthDelta labelInteriorRight = - 1 \<and>
   depthDelta labelInteriorBoth = 0 \<and>
   edgeList (insertUniqueEdge builderOneEdge edgeOther) =
     [edgeForward, edgeOther\<lparr>edgeDepthDelta := - 1\<rparr>]"
proof -
  have el: "edgeList builderOneEdge = [edgeForward]"
    by (simp add: builderOneEdge_def BufferBuilder_new_def)
  have a: "getLocation labelInteriorLeft 0 LEFT = INTERIOR \<and>
           getLocation labelInteriorLeft 0 RIGHT = EXTERIOR"
    by (simp add: getLocation_def tlGet_def labelInteriorLeft_def)
  have b: "getLocation labelInteriorRight 0 LEFT = EXTERIOR \<and>
           getLocation labelInteriorRight 0 RIGHT = INTERIOR"
    by (simp add: getLocation_def tlGet_def labelInteriorRight_def)
  have c: "\<not> (getLocation labelInteriorBoth 0 LEFT = INTERIOR \<and>
               getLocation labelInteriorBoth 0 RIGHT = EXTERIOR) \<and>
           \<not> (getLocation labelInteriorBoth 0 LEFT = EXTERIOR \<and>
               getLocation labelInteriorBoth 0 RIGHT = INTERIOR)"
    by (simp add: getLocation_def tlGet_def labelInteriorBoth_def)
  have d: "\<forall>a \<in> set (edgeList builderOneEdge). \<not> equalEdge a edgeOther"
    by (simp add: el equalEdge_def edgeForward_def edgeOther_def pt_def)
  have l: "edgeLabel edgeOther = labelInteriorRight"
    by (simp add: edgeOther_def)
  from depthDelta_cases_and_new_edge [of labelInteriorLeft builderOneEdge edgeOther] a
  have 1: "depthDelta labelInteriorLeft = 1" by blast
  from depthDelta_cases_and_new_edge [of labelInteriorRight builderOneEdge edgeOther] b d
  have 2: "depthDelta labelInteriorRight = - 1"
    and 4: "edgeList (insertUniqueEdge builderOneEdge edgeOther) =
              edgeList builderOneEdge @ [edgeOther\<lparr>edgeDepthDelta := depthDelta (edgeLabel edgeOther)\<rparr>]"
    by blast+
  from depthDelta_cases_and_new_edge [of labelInteriorBoth builderOneEdge edgeOther] c
  have 3: "depthDelta labelInteriorBoth = 0" by blast
  from 1 2 3 4 l el show ?thesis by simp
qed


section \<open>Properties of noding\<close>

lemma insertUniqueEdge_pts:
  "edgePts ` set (edgeList (insertUniqueEdge b e)) \<subseteq> insert (edgePts e) (edgePts ` set (edgeList b))"
proof (cases "findEqualEdge (edgeList b) e")
  case None
  then show ?thesis
    by (auto simp: insertUniqueEdge_def EdgeList_add_def)
next
  case (Some i)
  then have i: "i < length (edgeList b)"
    using findEqualEdge_Some by blast
  have "a \<in> edgePts ` set (edgeList b)"
    if "a \<in> edgePts ` set (edgeList (insertUniqueEdge b e))" for a
  proof -
    from that obtain j where j: "j < length (edgeList b)"
      and a: "a = edgePts (edgeList (insertUniqueEdge b e) ! j)"
      by (auto simp: insertUniqueEdge_def Some Let_def in_set_conv_nth)
    have "edgePts (edgeList (insertUniqueEdge b e) ! j) = edgePts (edgeList b ! j)"
      using i j by (cases "j = i") (simp_all add: insertUniqueEdge_def Some Let_def)
    with a j show ?thesis by simp
  qed
  then show ?thesis by blast
qed

lemma insertNodedEdges_fold:
  "insertNodedEdges strs b = Inr b' \<Longrightarrow> b' = foldl insertUniqueEdge b (handedEdges strs)"
proof (induction strs arbitrary: b)
  case Nil
  then show ?case by simp
next
  case (Cons segStr rest)
  show ?case
  proof (cases "length (removeRepeatedPoints (ssCoords segStr)) < 2")
    case True
    with Cons show ?thesis by simp
  next
    case False
    with Cons.prems obtain l where l: "ssData segStr = Some l"
      by (cases "ssData segStr") (simp_all add: Let_def)
    with False Cons show ?thesis by (simp add: Let_def)
  qed
qed

lemma handedEdges_wellformed:
  "e \<in> set (handedEdges strs) \<Longrightarrow> 2 \<le> length (edgePts e) \<and> distinct_adj (edgePts e)"
proof (induction strs)
  case Nil
  then show ?case by simp
next
  case (Cons segStr rest)
  then show ?case
    by (cases "ssData segStr")
       (auto simp: Let_def Edge_new_def removeRepeatedPoints_def split: if_splits)
qed

lemma handedEdges_source:
  "e \<in> set (handedEdges strs) \<Longrightarrow>
     \<exists>s \<in> set strs. edgePts e = removeRepeatedPoints (ssCoords s) \<and> ssData s = Some (edgeLabel e)"
proof (induction strs)
  case Nil
  then show ?case by simp
next
  case (Cons segStr rest)
  then show ?case
    by (cases "ssData segStr") (auto simp: Let_def Edge_new_def split: if_splits)
qed

lemma foldl_insertUniqueEdge_wellformed:
  assumes "\<forall>e \<in> set es. P (edgePts e)" and "\<forall>e \<in> set (edgeList b). P (edgePts e)"
  shows "\<forall>e \<in> set (edgeList (foldl insertUniqueEdge b es)). P (edgePts e)"
  using assms
proof (induction es arbitrary: b)
  case Nil
  then show ?case by simp
next
  case (Cons e es)
  have "\<forall>a \<in> set (edgeList (insertUniqueEdge b e)). P (edgePts a)"
    using insertUniqueEdge_pts [of b e] Cons.prems by auto
  with Cons show ?case by simp
qed

text \<open>
  C10. \<open>computeNodedEdges\<close> hands to \<open>insertUniqueEdge\<close> exactly the edges of
  \<open>handedEdges\<close>: a noded substring that collapses to fewer than two points after
  repeated-point removal yields none. Each handed edge has at least two coordinates and no
  repeated consecutive points, and so has every edge of the edge list afterwards, when the
  edges that were in it before have.
\<close>

theorem computeNodedEdges_no_collapsed_edges:
  assumes "computeNodedEdges env b bufferSegStrList precisionModel = Inr b'"
    and "nodedSegStrings = fst (getNoder env b precisionModel) bufferSegStrList"
  shows "b' = foldl insertUniqueEdge (snd (getNoder env b precisionModel)) (handedEdges nodedSegStrings)
       \<and> (\<forall>e \<in> set (handedEdges nodedSegStrings).
             2 \<le> length (edgePts e) \<and> distinct_adj (edgePts e) \<and>
             (\<exists>s \<in> set nodedSegStrings. edgePts e = removeRepeatedPoints (ssCoords s)))
       \<and> (\<forall>s \<in> set nodedSegStrings. length (removeRepeatedPoints (ssCoords s)) < 2 \<longrightarrow>
             (\<forall>e \<in> set (handedEdges nodedSegStrings). edgePts e \<noteq> removeRepeatedPoints (ssCoords s)))
       \<and> ((\<forall>e \<in> set (edgeList b). 2 \<le> length (edgePts e) \<and> distinct_adj (edgePts e)) \<longrightarrow>
            (\<forall>e \<in> set (edgeList b'). 2 \<le> length (edgePts e) \<and> distinct_adj (edgePts e)))"
proof -
  let ?b1 = "snd (getNoder env b precisionModel)"
  from assms have run: "insertNodedEdges nodedSegStrings ?b1 = Inr b'"
    by (simp add: computeNodedEdges_def split_def Let_def)
  then have fold: "b' = foldl insertUniqueEdge ?b1 (handedEdges nodedSegStrings)"
    by (rule insertNodedEdges_fold)
  have handed: "\<forall>e \<in> set (handedEdges nodedSegStrings).
             2 \<le> length (edgePts e) \<and> distinct_adj (edgePts e) \<and>
             (\<exists>s \<in> set nodedSegStrings. edgePts e = removeRepeatedPoints (ssCoords s))"
    using handedEdges_wellformed handedEdges_source by blast
  then have skipped: "\<forall>s \<in> set nodedSegStrings. length (removeRepeatedPoints (ssCoords s)) < 2 \<longrightarrow>
             (\<forall>e \<in> set (handedEdges nodedSegStrings). edgePts e \<noteq> removeRepeatedPoints (ssCoords s))"
    by fastforce
  have el: "edgeList ?b1 = edgeList b"
    by (simp add: getNoder_def split: option.splits)
  have inv: "\<forall>e \<in> set (edgeList b'). 2 \<le> length (edgePts e) \<and> distinct_adj (edgePts e)"
    if "\<forall>e \<in> set (edgeList b). 2 \<le> length (edgePts e) \<and> distinct_adj (edgePts e)"
    unfolding fold
    using handed that el
    by (intro foldl_insertUniqueEdge_wellformed [where P = "\<lambda>p. 2 \<le> length p \<and> distinct_adj p"]) simp_all
  from fold handed skipped inv show ?thesis by blast
qed

lemma smallWorld_noder: "MCIndexNoder smallWorld pm = (\<lambda>segStrs. segStrs)"
  by (simp add: smallWorld_def)

lemma depthDelta_samples:
  "depthDelta labelInteriorLeft = 1" "depthDelta labelInteriorRight = - 1"
  "flip labelInteriorRight = labelInteriorLeft" "flip labelInteriorLeft = labelInteriorRight"
  by (simp_all add: depthDelta_def getLocation_def tlGet_def flip_def tlFlip_def
        labelInteriorLeft_def labelInteriorRight_def noLocation_def)

theorem computeNodedEdges_no_collapsed_edges_witness:
  "computeNodedEdges smallWorld (BufferBuilder_new defaultParams) sampleCurves Floating = Inr nodedBuilder \<and>
   handedEdges sampleCurves =
     [Edge_new [pt 0 0, pt 1 0] labelInteriorLeft, Edge_new [pt 1 0, pt 0 0] labelInteriorRight] \<and>
   list_all (\<lambda>e. 2 \<le> length (edgePts e) \<and> distinct_adj (edgePts e)) (edgeList nodedBuilder)"
proof -
  have noder: "getNoder smallWorld (BufferBuilder_new defaultParams) Floating =
                 (\<lambda>segStrs. segStrs, (BufferBuilder_new defaultParams)\<lparr>li := Some Floating\<rparr>)"
    by (simp add: getNoder_def BufferBuilder_new_def smallWorld_noder)
  have run: "computeNodedEdges smallWorld (BufferBuilder_new defaultParams) sampleCurves Floating
               = Inr nodedBuilder"
    unfolding computeNodedEdges_def noder
    by (simp add: sampleCurves_def removeRepeatedPoints_def pt_def
          insertUniqueEdge_def Edge_new_def BufferBuilder_new_def EdgeList_add_def equalEdge_def
          isPointwiseEqual_def depthDelta_samples nodedBuilder_def int32_def Let_def)
  have strs: "sampleCurves = fst (getNoder smallWorld (BufferBuilder_new defaultParams) Floating) sampleCurves"
    by (simp add: noder)
  have handed: "handedEdges sampleCurves =
     [Edge_new [pt 0 0, pt 1 0] labelInteriorLeft, Edge_new [pt 1 0, pt 0 0] labelInteriorRight]"
    by (simp add: sampleCurves_def removeRepeatedPoints_def pt_def Let_def)
  have init: "\<forall>e \<in> set (edgeList (BufferBuilder_new defaultParams)).
                2 \<le> length (edgePts e) \<and> distinct_adj (edgePts e)"
    by (simp add: BufferBuilder_new_def)
  from computeNodedEdges_no_collapsed_edges [OF run strs] init
  have "\<forall>e \<in> set (edgeList nodedBuilder). 2 \<le> length (edgePts e) \<and> distinct_adj (edgePts e)"
    by blast
  with run handed show ?thesis by (simp add: list_all_iff)
qed


section \<open>Properties of the endpoint trimming\<close>

text \<open>
  The loops of the clean-up work on the window \<open>take sz (drop front coords)\<close> of the merged
  line; each loop is one of the list functions on that window.
\<close>

lemma window_Cons:
  "0 < sz \<Longrightarrow> front < length coords \<Longrightarrow>
     take sz (drop front coords) = coords ! front # take (sz - 1) (drop (front + 1) coords)"
  by (cases sz) (simp_all add: Cons_nth_drop_Suc [symmetric])

lemma shrinkFront_short: "length ps \<le> 1 \<Longrightarrow> shrinkFront env refPoint pa sa ps = ps"
  by (cases ps; cases "tl ps") auto

lemma trimFront_shrinkFront:
  "front + sz \<le> length coords \<Longrightarrow>
   trimFront env coords refPoint pa sa front sz = (front', sz') \<Longrightarrow>
   front' + sz' = front + sz \<and>
   take sz' (drop front' coords) = shrinkFront env refPoint pa sa (take sz (drop front coords))"
proof (induction env coords refPoint pa sa front sz rule: trimFront.induct)
  case (1 env coords refPoint pa sa front sz)
  show ?case
  proof (cases "sz > 1")
    case False
    with "1.prems" have "front' = front" "sz' = sz"
      by (simp_all add: trimFront.simps)
    with False show ?thesis by (simp add: shrinkFront_short)
  next
    case True
    with "1.prems" have w: "take sz (drop front coords) =
        coords ! front # coords ! (front + 1) # take (sz - 2) (drop (front + 2) coords)"
      using window_Cons [of sz front coords] window_Cons [of "sz - 1" "front + 1" coords]
      by (simp add: numeral_2_eq_2)
    from True "1.prems" have w': "take (sz - 1) (drop (front + 1) coords) =
        coords ! (front + 1) # take (sz - 2) (drop (front + 2) coords)"
      using window_Cons [of "sz - 1" "front + 1" coords]
      by (simp add: numeral_2_eq_2)
    show ?thesis
    proof (cases "coordinateDistance env (coords ! front) refPoint < pa \<and>
                  \<not> coordinateDistance env (coords ! front) (coords ! (front + 1)) > sa")
      case False
      with True "1.prems" have "front' = front" "sz' = sz"
        by (auto simp: trimFront.simps [of env coords refPoint pa sa front sz] Let_def split: if_splits)
      with False w show ?thesis by auto
    next
      case go: True
      with True "1.prems" have rec: "trimFront env coords refPoint pa sa (front + 1) (sz - 1) = (front', sz')"
        by (simp add: trimFront.simps [of env coords refPoint pa sa front sz] Let_def)
      from True "1.prems" have "front + 1 + (sz - 1) \<le> length coords" by simp
      from "1.IH" [OF _ _ _ this rec] True go
      have "front' + sz' = front + 1 + (sz - 1) \<and>
            take sz' (drop front' coords) =
              shrinkFront env refPoint pa sa (take (sz - 1) (drop (front + 1) coords))"
        by simp
      with True go w w' show ?thesis by (simp add: not_less)
    qed
  qed
qed

lemma window_snoc:
  "0 < sz \<Longrightarrow> front + sz \<le> length coords \<Longrightarrow>
     take sz (drop front coords) = take (sz - 1) (drop front coords) @ [coords ! (front + sz - 1)]"
  by (cases sz) (simp_all add: take_Suc_conv_app_nth)

lemma shrinkBack_short: "length ps \<le> 1 \<Longrightarrow> shrinkBack env refPoint pa sa ps = ps"
  by (simp add: shrinkBack_def shrinkFront_short)

lemma shrinkBack_snoc:
  "shrinkBack env refPoint pa sa (ps @ [q, p]) =
     (if coordinateDistance env p refPoint < pa \<and> coordinateDistance env p q \<le> sa
      then shrinkBack env refPoint pa sa (ps @ [q]) else ps @ [q, p])"
  by (simp add: shrinkBack_def)

lemma trimBack_shrinkBack:
  "front + sz \<le> length coords \<Longrightarrow> (0 < sz \<longrightarrow> bk + 1 = front + sz) \<Longrightarrow>
   trimBack env coords refPoint pa sa bk sz = (bk', sz') \<Longrightarrow>
   (0 < sz' \<longrightarrow> bk' + 1 = front + sz') \<and> sz' \<le> sz \<and> (sz = 0 \<longrightarrow> sz' = 0) \<and>
   take sz' (drop front coords) = shrinkBack env refPoint pa sa (take sz (drop front coords))"
proof (induction env coords refPoint pa sa bk sz rule: trimBack.induct)
  case (1 env coords refPoint pa sa bk sz)
  show ?case
  proof (cases "sz > 1")
    case False
    with "1.prems" have "bk' = bk" "sz' = sz"
      by (simp_all add: trimBack.simps)
    with False "1.prems" show ?thesis by (simp add: shrinkBack_short)
  next
    case True
    with "1.prems" have bk: "bk = front + sz - 1" by simp
    from True "1.prems" have w': "take (sz - 1) (drop front coords) =
        take (sz - 2) (drop front coords) @ [coords ! (bk - 1)]"
      using window_snoc [of "sz - 1" front coords] bk
      by (simp add: numeral_2_eq_2)
    from True "1.prems" have w: "take sz (drop front coords) =
        take (sz - 2) (drop front coords) @ [coords ! (bk - 1), coords ! bk]"
      using window_snoc [of sz front coords] w' bk by simp
    show ?thesis
    proof (cases "coordinateDistance env (coords ! bk) refPoint < pa \<and>
                  \<not> coordinateDistance env (coords ! bk) (coords ! (bk - 1)) > sa")
      case False
      with True "1.prems" have "bk' = bk" "sz' = sz"
        by (auto simp: trimBack.simps [of env coords refPoint pa sa bk sz] Let_def split: if_splits)
      with False w True bk show ?thesis by (auto simp: shrinkBack_snoc)
    next
      case go: True
      with True "1.prems" have rec: "trimBack env coords refPoint pa sa (bk - 1) (sz - 1) = (bk', sz')"
        by (simp add: trimBack.simps [of env coords refPoint pa sa bk sz] Let_def)
      from True "1.prems" have a: "front + (sz - 1) \<le> length coords" by simp
      from True bk have b: "0 < sz - 1 \<longrightarrow> bk - 1 + 1 = front + (sz - 1)" by simp
      from "1.IH" [OF _ _ _ a b rec] True go
      have "(0 < sz' \<longrightarrow> bk' + 1 = front + sz') \<and> sz' \<le> sz - 1 \<and>
            take sz' (drop front coords) =
              shrinkBack env refPoint pa sa (take (sz - 1) (drop front coords))"
        by simp
      then have "sz' \<le> sz" and "sz \<noteq> 0 \<or> sz' = 0" and rest:
            "(0 < sz' \<longrightarrow> bk' + 1 = front + sz') \<and>
             take sz' (drop front coords) =
               shrinkBack env refPoint pa sa (take (sz - 1) (drop front coords))"
        using True by auto
      with True go w w' show ?thesis by (simp add: not_less shrinkBack_snoc)
    qed
  qed
qed

lemma size_t_small: "0 \<le> n \<Longrightarrow> n < 2 ^ 64 \<Longrightarrow> size_t n = nat n"
  by (simp add: size_t_def)

lemma trimLine_init:
  assumes "length coords < 2 ^ 64"
  shows "size_t (int (size_t (int (length coords) - 1)) - int (0::nat) + 1) = length coords"
    and "0 < length coords \<Longrightarrow> size_t (int (length coords) - 1) + 1 = length coords"
proof -
  show "0 < length coords \<Longrightarrow> size_t (int (length coords) - 1) + 1 = length coords"
  proof -
    assume "0 < length coords"
    then have "size_t (int (length coords) - 1) = nat (int (length coords) - 1)"
      using assms by (intro size_t_small) simp_all
    with \<open>0 < length coords\<close> show ?thesis by linarith
  qed
  show "size_t (int (size_t (int (length coords) - 1)) - int (0::nat) + 1) = length coords"
  proof (cases "length coords = 0")
    case True
    then show ?thesis by (simp add: size_t_def)
  next
    case False
    then have "size_t (int (length coords) - 1) = nat (int (length coords) - 1)"
      using assms by (intro size_t_small) simp_all
    moreover have "size_t (int (length coords)) = length coords"
      using assms by (simp add: size_t_small)
    ultimately show ?thesis using False by simp
  qed
qed

lemma window_map:
  "front + sz \<le> length coords \<Longrightarrow>
     map (\<lambda>i. coords ! (i + front)) [0..<sz] = take sz (drop front coords)"
  by (rule nth_equalityI) (simp_all add: add.commute)

text \<open>
  The body of the loop over the merged lines is the four passes, with the allowances of the
  code: those of the spec with the signed distance in the place of its absolute value.
\<close>

lemma trimLine_passes:
  assumes "length coords < 2 ^ 64"
    and "pa = max (toDouble env (distance - toDouble env (lineLength * toDouble env 0.1)))
                  (toDouble env (distance * toDouble env 0.98))"
    and "sa = toDouble env (toDouble env 1.02 * distance)"
    and "trimmed = shrinkBack env endPoint pa sa (shrinkBack env startPoint pa sa
           (shrinkFront env endPoint pa sa (shrinkFront env startPoint pa sa coords)))"
  shows "trimLine env coords startPoint endPoint distance lineLength =
           (if length trimmed > 1 then Some trimmed else None)"
proof -
  define bk0 where "bk0 = size_t (int (length coords) - 1)"
  define n where "n = length coords"
  have sz0: "size_t (int bk0 - int (0::nat) + 1) = n"
    and bk0: "0 < n \<Longrightarrow> bk0 + 1 = n"
    using trimLine_init [OF assms(1)] by (simp_all add: bk0_def n_def)
  obtain f1 s1 where t1: "trimFront env coords startPoint pa sa 0 n = (f1, s1)"
    by (cases "trimFront env coords startPoint pa sa 0 n")
  obtain f2 s2 where t2: "trimFront env coords endPoint pa sa f1 s1 = (f2, s2)"
    by (cases "trimFront env coords endPoint pa sa f1 s1")
  obtain b3 s3 where t3: "trimBack env coords startPoint pa sa bk0 s2 = (b3, s3)"
    by (cases "trimBack env coords startPoint pa sa bk0 s2")
  obtain b4 s4 where t4: "trimBack env coords endPoint pa sa b3 s3 = (b4, s4)"
    by (cases "trimBack env coords endPoint pa sa b3 s3")
  from trimFront_shrinkFront [OF _ t1]
  have r1: "f1 + s1 = n" "take s1 (drop f1 coords) = shrinkFront env startPoint pa sa coords"
    by (simp_all add: n_def)
  from trimFront_shrinkFront [OF _ t2] r1
  have r2: "f2 + s2 = n"
    "take s2 (drop f2 coords) = shrinkFront env endPoint pa sa (shrinkFront env startPoint pa sa coords)"
    by (simp_all add: n_def)
  have "0 < s2 \<longrightarrow> bk0 + 1 = f2 + s2"
    using r2(1) bk0 by auto
  from trimBack_shrinkBack [OF _ this t3] r2
  have r3: "0 < s3 \<longrightarrow> b3 + 1 = f2 + s3" "s3 \<le> s2"
    "take s3 (drop f2 coords) = shrinkBack env startPoint pa sa
       (shrinkFront env endPoint pa sa (shrinkFront env startPoint pa sa coords))"
    by (simp_all add: n_def)
  from r3 r2 have "f2 + s3 \<le> length coords" by (simp add: n_def)
  from trimBack_shrinkBack [OF this r3(1) t4] r3
  have r4: "s4 \<le> s3"
    "take s4 (drop f2 coords) = shrinkBack env endPoint pa sa (shrinkBack env startPoint pa sa
       (shrinkFront env endPoint pa sa (shrinkFront env startPoint pa sa coords)))"
    by simp_all
  have le: "f2 + s4 \<le> length coords"
    using r4(1) r3(2) r2(1) by (simp add: n_def)
  have seq: "trimmed = take s4 (drop f2 coords)"
    by (simp add: assms(4) r4)
  then have len: "length trimmed = s4"
    using le by simp
  have whole: "take s4 (drop f2 coords) = coords" if "\<not> s4 < length coords"
  proof -
    from that le have "f2 = 0" and "length coords \<le> s4" by linarith+
    then show ?thesis by simp
  qed
  have "trimLine env coords startPoint endPoint distance lineLength =
          (if s4 > 1 then
             (if s4 < length coords then Some (map (\<lambda>i. coords ! (i + f2)) [0..<s4]) else Some coords)
           else None)"
    unfolding trimLine_def Let_def
    unfolding assms(2) [symmetric] assms(3) [symmetric] bk0_def [symmetric]
    using sz0 t1 t2 t3 t4 by simp
  also have "\<dots> = (if s4 > 1 then Some (take s4 (drop f2 coords)) else None)"
    using whole le by (simp add: window_map)
  finally show ?thesis
    by (simp add: seq [symmetric] len)
qed

lemma trimLine_refines:
  assumes "length coords < 2 ^ 64" and "0 \<le> distance"
  shows "trimLine env coords startPoint endPoint distance lineLength =
           (let trimmed = trimSequential env coords startPoint endPoint distance lineLength
            in if length trimmed > 1 then Some trimmed else None)"
proof -
  have d: "\<bar>distance\<bar> = distance" using assms(2) by simp
  show ?thesis
    unfolding trimSequential_def pointAllowance_def segmentAllowance_def Let_def d
    by (rule trimLine_passes [OF assms(1) refl refl refl])
qed

lemma trimMergedLines_refines:
  assumes "\<forall>cs \<in> set mergedLines. length cs < 2 ^ 64" and "0 \<le> distance"
  shows "trimMergedLines env mergedLines startPoint endPoint distance lineLength =
           trimmedLines (\<lambda>coords. trimSequential env coords startPoint endPoint distance lineLength)
             mergedLines"
proof -
  have "List.map_filter
          (\<lambda>coords. map_option LineString (trimLine env coords startPoint endPoint distance lineLength)) ms =
        map LineString (filter (\<lambda>cs. 1 < length cs)
          (map (\<lambda>coords. trimSequential env coords startPoint endPoint distance lineLength) ms))"
    if "\<forall>cs \<in> set ms. length cs < 2 ^ 64" for ms
    using that
  proof (induction ms)
    case Nil
    then show ?case by (simp add: List.map_filter_simps)
  next
    case (Cons m ms)
    then show ?case
      by (simp add: List.map_filter_simps trimLine_refines [OF _ assms(2)] Let_def)
  qed
  from this [of "rev mergedLines"] assms(1) show ?thesis
    by (simp add: trimMergedLines_def trimmedLines_def)
qed

section \<open>The arithmetic of the instances\<close>

lemma roundHalfEven_int: "roundHalfEven (of_int k) = k"
  by (simp add: roundHalfEven_def)

lemma roundHalfEven_error: "\<bar>q - of_int (roundHalfEven q)\<bar> \<le> 1 / 2"
proof -
  have "of_int \<lfloor>q\<rfloor> \<le> q" "q < of_int \<lfloor>q\<rfloor> + 1" by linarith+
  then show ?thesis by (auto simp: roundHalfEven_def Let_def)
qed

lemma binade_le: "x \<noteq> 0 \<Longrightarrow> 2 powr (of_int \<lfloor>log 2 \<bar>x\<bar>\<rfloor>) \<le> \<bar>x\<bar>"
proof -
  assume "x \<noteq> 0"
  then have "2 powr (log 2 \<bar>x\<bar>) = \<bar>x\<bar>" by simp
  moreover have "2 powr (of_int \<lfloor>log 2 \<bar>x\<bar>\<rfloor>) \<le> 2 powr (log 2 \<bar>x\<bar>)"
    by (intro powr_mono) simp_all
  ultimately show ?thesis by simp
qed

text \<open>The rounding changes a number by at most the 2^53-th part of it.\<close>

lemma roundDouble_error: "\<bar>roundDouble x - x\<bar> * 2 ^ 53 \<le> \<bar>x\<bar>"
proof (cases "x = 0")
  case True
  then show ?thesis by (simp add: roundDouble_def)
next
  case False
  define e where "e = \<lfloor>log 2 \<bar>x\<bar>\<rfloor>"
  define u where "u = (2::real) powr (of_int e - 52)"
  have u: "0 < u" by (simp add: u_def)
  have ue: "u * 2 ^ 52 = 2 powr (of_int e)"
    by (simp add: u_def powr_diff powr_numeral)
  have r: "roundDouble x = u * of_int (roundHalfEven (x / u))"
    using False by (simp add: roundDouble_def Let_def u_def e_def)
  have "\<bar>u * of_int (roundHalfEven (x / u)) - x\<bar> = u * \<bar>x / u - of_int (roundHalfEven (x / u))\<bar>"
  proof -
    have "u * of_int (roundHalfEven (x / u)) - x = u * (of_int (roundHalfEven (x / u)) - x / u)"
      using u by (simp add: algebra_simps)
    then show ?thesis using u by (simp add: abs_mult abs_minus_commute)
  qed
  also have "\<dots> \<le> u * (1 / 2)"
    using u roundHalfEven_error [of "x / u"] by (intro mult_left_mono) simp_all
  finally have "\<bar>roundDouble x - x\<bar> \<le> u / 2" by (simp add: r)
  then have "\<bar>roundDouble x - x\<bar> * 2 ^ 53 \<le> u * 2 ^ 52" by simp
  also have "\<dots> \<le> \<bar>x\<bar>"
    unfolding ue e_def by (rule binade_le [OF False])
  finally show ?thesis .
qed

text \<open>An integer below 2^53 is a double.\<close>

lemma roundDouble_Ints:
  assumes "x \<in> \<int>" and "\<bar>x\<bar> < 2 ^ 53"
  shows "roundDouble x = x"
proof (cases "x = 0")
  case True
  then show ?thesis by (simp add: roundDouble_def)
next
  case False
  from assms(1) obtain n where n: "x = of_int n" by (auto elim: Ints_cases)
  with False have "n \<noteq> 0" by simp
  then have one: "1 \<le> \<bar>x\<bar>" using n by simp
  define e where "e = \<lfloor>log 2 \<bar>x\<bar>\<rfloor>"
  have "0 \<le> log 2 \<bar>x\<bar>" using one by simp
  then have e0: "0 \<le> e" by (simp add: e_def)
  have "log 2 \<bar>x\<bar> < 53"
    using one assms(2) by (subst log_less_iff) (simp_all add: powr_numeral)
  then have e52: "e \<le> 52" by (simp add: e_def floor_le_iff)
  define k where "k = nat (52 - e)"
  have ke: "of_int e - 52 = - real k" using e52 by (simp add: k_def)
  define u where "u = (2::real) powr (of_int e - 52)"
  have u: "u = 1 / 2 ^ k"
    by (simp add: u_def ke powr_minus powr_realpow divide_simps)
  have q: "x / u = of_int (n * 2 ^ k)"
    by (simp add: u n)
  have "roundDouble x = u * of_int (roundHalfEven (x / u))"
    using False by (simp add: roundDouble_def Let_def u_def e_def)
  also have "\<dots> = u * of_int (n * 2 ^ k)"
    unfolding q roundHalfEven_int ..
  also have "\<dots> = x" by (simp add: u n)
  finally show ?thesis .
qed

section \<open>Properties of the subgraph stage\<close>

lemma BufferSubgraphGT_iff:
  "BufferSubgraphGT s t \<longleftrightarrow> cx (getRightmostCoordinate s) > cx (getRightmostCoordinate t)"
  by (simp add: BufferSubgraphGT_def compareTo_def getRightmostCoordinate_def)


text \<open>The insertion sort of the instances keeps that promise, for every list.\<close>

lemma set_insertSorted: "set (insertSorted cmp a cs) = insert a (set cs)"
  by (induction cs) auto

lemma mset_insertSorted: "mset (insertSorted cmp a cs) = add_mset a (mset cs)"
  by (induction cs) auto

lemma mset_insertionSort: "mset (insertionSort cmp elems) = mset elems"
  by (induction elems) (simp_all add: insertionSort_def mset_insertSorted)

lemma insertSorted_descending:
  assumes "sorted_wrt (\<lambda>s t. \<not> BufferSubgraphGT t s) cs"
  shows "sorted_wrt (\<lambda>s t. \<not> BufferSubgraphGT t s) (insertSorted BufferSubgraphGT a cs)"
  using assms
proof (induction cs)
  case Nil
  then show ?case by simp
next
  case (Cons c cs)
  show ?case
  proof (cases "BufferSubgraphGT c a")
    case True
    with Cons show ?thesis
      by (auto simp: set_insertSorted BufferSubgraphGT_iff)
  next
    case False
    with Cons.prems show ?thesis
      by (auto simp: BufferSubgraphGT_iff)
  qed
qed

lemma insertionSort_descending:
  "sorted_wrt (\<lambda>s t. \<not> BufferSubgraphGT t s) (insertionSort BufferSubgraphGT elems)"
  by (induction elems) (simp_all add: insertionSort_def insertSorted_descending)





section \<open>Properties of buffer\<close>

lemma collectResults_Inr:
  "collectResults rs = Inr vs \<longleftrightarrow> rs = map Inr vs"
proof (induction rs arbitrary: vs)
  case Nil
  then show ?case by auto
next
  case (Cons r rs)
  show ?case
  proof (cases r)
    case (Inl exc)
    then show ?thesis by auto
  next
    case (Inr v)
    show ?thesis
    proof (cases "collectResults rs")
      case (Inl exc)
      with Cons.IH have "\<And>ws. rs \<noteq> map Inr ws" by auto
      with Inl Inr show ?thesis by (cases vs) auto
    next
      case rest: (Inr ws)
      with Cons.IH [of ws] have "rs = map Inr ws" by simp
      with rest Inr show ?thesis by (cases vs) (auto simp: inj_map_eq_map)
    qed
  qed
qed

lemma collectResults_Inl:
  "collectResults rs = Inl exc \<longleftrightarrow>
     (\<exists>k < length rs. rs ! k = Inl exc \<and> (\<forall>j < k. \<exists>v. rs ! j = Inr v))"
proof (induction rs)
  case Nil
  then show ?case by simp
next
  case (Cons r rs)
  show ?case
  proof (cases r)
    case (Inl e)
    show ?thesis
    proof
      assume "collectResults (r # rs) = Inl exc"
      with Inl have "e = exc" by simp
      with Inl show "\<exists>k < length (r # rs). (r # rs) ! k = Inl exc \<and> (\<forall>j < k. \<exists>v. (r # rs) ! j = Inr v)"
        by (intro exI [of _ 0]) simp
    next
      assume "\<exists>k < length (r # rs). (r # rs) ! k = Inl exc \<and> (\<forall>j < k. \<exists>v. (r # rs) ! j = Inr v)"
      then obtain k where k: "(r # rs) ! k = Inl exc" "\<forall>j < k. \<exists>v. (r # rs) ! j = Inr v"
        by blast
      have "k = 0"
      proof (rule ccontr)
        assume "k \<noteq> 0"
        with k(2) Inl show False by (auto dest: spec [of _ 0])
      qed
      with k Inl show "collectResults (r # rs) = Inl exc" by simp
    qed
  next
    case (Inr v)
    have "(\<exists>k < length (r # rs). (r # rs) ! k = Inl exc \<and> (\<forall>j < k. \<exists>v. (r # rs) ! j = Inr v)) \<longleftrightarrow>
          (\<exists>k < length rs. rs ! k = Inl exc \<and> (\<forall>j < k. \<exists>v. rs ! j = Inr v))"
      (is "?L \<longleftrightarrow> ?R")
    proof
      assume ?L
      then obtain k where k: "k < length (r # rs)" "(r # rs) ! k = Inl exc"
        "\<forall>j < k. \<exists>v. (r # rs) ! j = Inr v" by blast
      with Inr obtain m where m: "k = Suc m" by (cases k) auto
      with k have "m < length rs" "rs ! m = Inl exc" by simp_all
      moreover have "\<forall>j < m. \<exists>v. rs ! j = Inr v"
      proof (intro allI impI)
        fix j assume "j < m"
        with m k(3) have "\<exists>v. (r # rs) ! Suc j = Inr v" by (metis Suc_less_eq)
        then show "\<exists>v. rs ! j = Inr v" by simp
      qed
      ultimately show ?R by blast
    next
      assume ?R
      then obtain m where m: "m < length rs" "rs ! m = Inl exc" "\<forall>j < m. \<exists>v. rs ! j = Inr v"
        by blast
      have "\<forall>j < Suc m. \<exists>v. (r # rs) ! j = Inr v"
      proof (intro allI impI)
        fix j assume "j < Suc m"
        with m(3) Inr show "\<exists>v. (r # rs) ! j = Inr v" by (cases j) auto
      qed
      with m show ?L by (intro exI [of _ "Suc m"]) simp
    qed
    with Cons.IH Inr show ?thesis
      by (auto split: sum.splits)
  qed
qed

lemma BufferBuilder_new_fresh:
  "bufParams (BufferBuilder_new p) = p" "edgeList (BufferBuilder_new p) = []"
  "workingNoder (BufferBuilder_new p) = None" "workingPrecisionModel (BufferBuilder_new p) = None"
  "li (BufferBuilder_new p) = None" "isInvertOrientation (BufferBuilder_new p) = False"
  by (simp_all add: BufferBuilder_new_def)


lemma mergerWorld_simps:
  "getPrecisionModel (mergerWorld m) g = Floating"
  "getCurves (mergerWorld m) g distance pm params invert =
     (if distance \<le> 0 then []
      else (case g of LineString cs \<Rightarrow> [\<lparr>ssCoords = cs, ssData = Some labelInteriorLeft\<rparr>]
                    | other \<Rightarrow> []))"
  "MCIndexNoder (mergerWorld m) pm = (\<lambda>segStrs. segStrs)"
  "interruptRequested (mergerWorld m) k = False"
  "unaryUnion (mergerWorld m) gs = Inr (GeometryCollection gs)"
  "polygonize (mergerWorld m) g = []"
  "overlayUnion (mergerWorld m) g h = Inr (GeometryCollection [g, h])"
  "newPolygonBuilder (mergerWorld m) = []"
  "getPolygons (mergerWorld m) polys = polys"
  "addEdges (mergerWorld m) edges = map (\<lambda>e. (firstPoint (edgePts e), False)) edges"
  "getNodes (mergerWorld m) graph = [0..<length graph]"
  "snapIntersection (mergerWorld m) g h = Inr g"
  "getSingleSidedLineCurve (mergerWorld m) pm params cs distance leftSide rightSide =
     [map (\<lambda>p. pt (cx p) (cy p + (if leftSide then distance else - distance))) cs]"
  "buildGeometry (mergerWorld m) gs = (case gs of [g] \<Rightarrow> g | other \<Rightarrow> MultiPolygon gs)"
  "getMergedLineStrings (mergerWorld m) = m"
  "toDouble (mergerWorld m) = roundDouble"
  "coordinateDistance (mergerWorld m) = doubleDistance"
  "getLength (mergerWorld m) = doubleLength"
  by (simp_all add: mergerWorld_def smallWorld_def)

lemma smallWorld_mergerWorld: "smallWorld = mergerWorld (getMergedLineStrings smallWorld)"
  by (simp add: mergerWorld_def)

lemma smallWorld_simps:
  "getPrecisionModel smallWorld g = Floating"
  "getCurves smallWorld g distance pm params invert =
     (if distance \<le> 0 then []
      else (case g of LineString cs \<Rightarrow> [\<lparr>ssCoords = cs, ssData = Some labelInteriorLeft\<rparr>]
                    | other \<Rightarrow> []))"
  "interruptRequested smallWorld k = False"
  "unaryUnion smallWorld gs = Inr (GeometryCollection gs)"
  "polygonize smallWorld g = []"
  "overlayUnion smallWorld g h = Inr (GeometryCollection [g, h])"
  by (simp_all add: smallWorld_def)

lemma buffer_line_mergerWorld:
  assumes "remdups_adj cs = cs" and "2 \<le> length cs" and "0 < d"
  shows "buffer (mergerWorld m) (BufferBuilder_new params) (LineString cs) d =
           Inr (Polygon [hd cs] [], lineBuilder params cs)"
proof -
  let ?env = "mergerWorld m"
  let ?b = "BufferBuilder_new params"
  let ?g = "LineString cs"
  let ?e = "\<lparr>edgePts = cs, edgeLabel = labelInteriorLeft, edgeDepthDelta = 1\<rparr>"
  have one: "getNumGeometries ?g = 1"
    by (simp add: getNumGeometries_def)
  have noder: "getNoder ?env ?b Floating = (\<lambda>segStrs. segStrs, ?b\<lparr>li := Some Floating\<rparr>)"
    by (simp add: getNoder_def BufferBuilder_new_def mergerWorld_simps)
  have dd: "depthDelta labelInteriorLeft = 1"
    by (simp add: depthDelta_def getLocation_def tlGet_def labelInteriorLeft_def)
  have noded: "computeNodedEdges ?env ?b [\<lparr>ssCoords = cs, ssData = Some labelInteriorLeft\<rparr>] Floating
               = Inr (lineBuilder params cs)"
    unfolding computeNodedEdges_def noder
    using assms(1,2)
    by (simp add: removeRepeatedPoints_def insertUniqueEdge_def Edge_new_def
          BufferBuilder_new_def EdgeList_add_def dd lineBuilder_def Let_def)
  have el: "edgeList (lineBuilder params cs) = [?e]"
    and sp: "bufParams (lineBuilder params cs) = params"
    by (simp_all add: lineBuilder_def BufferBuilder_new_def)
  from assms(2) have fp: "firstPoint cs = hd cs"
    by (cases cs) (simp_all add: firstPoint_def)
  have subs: "createSubgraphs ?env [(hd cs, False)] [] = Inr [\<lparr>rightMostCoord = hd cs, sgBody = None\<rparr>]"
    by (simp add: createSubgraphs_def insertionSort_def mergerWorld_def smallWorld_def)
  have built: "buildSubgraphs ?env [\<lparr>rightMostCoord = hd cs, sgBody = None\<rparr>] [] =
                 Inr [Polygon [hd cs] []]"
    by (simp add: buildSubgraphs_def getRightmostCoordinate_def mergerWorld_def smallWorld_def Let_def)
  have clean: "singleSidedCleanup ?env ?g (Polygon [hd cs] []) = Inr (Polygon [hd cs] [])"
    by (simp add: singleSidedCleanup_def mergerWorld_simps Let_def)
  have whole: "bufferWhole ?env ?b ?g d = Inr (Polygon [hd cs] [], lineBuilder params cs)"
    unfolding bufferWhole_def Let_def
    using assms(3)
    by (simp add: mergerWorld_simps BufferBuilder_new_fresh noded el sp subs built clean fp)
  show ?thesis
    by (simp add: buffer.simps [of ?env ?b ?g d] one whole)
qed

lemma pt_sel: "cx (pt a b) = a" "cy (pt a b) = b"
  by (simp_all add: pt_def)

lemma pt_eq: "pt a b = pt c d \<longleftrightarrow> a = c \<and> b = d"
  by (simp add: pt_def)

lemma buffer_line_smallWorld:
  "buffer smallWorld (BufferBuilder_new params) (LineString [pt 0 h, pt 1 h]) 1 =
     Inr (Polygon [pt 0 h] [], lineBuilder params [pt 0 h, pt 1 h])"
  using buffer_line_mergerWorld [of "[pt 0 h, pt 1 h]" 1 "getMergedLineStrings smallWorld" params]
  by (simp add: smallWorld_mergerWorld [symmetric] pt_eq)

text \<open>
  C6. With \<open>singleSided\<close> set and an input of more than one component, \<open>buffer\<close>
  buffers every component with a builder constructed afresh from the same parameters (with
  an empty edge list) and returns the unary union of the results, in the order of the
  components; the first component whose buffer raises makes the whole call raise. The builder
  the call was made on comes back as it was.
\<close>

theorem buffer_singleSided_components:
  assumes "isSingleSided (bufParams b)" and "getNumGeometries g > 1"
  shows "(\<forall>results.
            length results = getNumGeometries g \<and>
            (\<forall>i < getNumGeometries g. \<exists>subbuilder'.
               buffer env (BufferBuilder_new (bufParams b)) (getGeometryN g i) distance
                 = Inr (results ! i, subbuilder'))
            \<longrightarrow> buffer env b g distance =
                  (case unaryUnion env results of Inl exc \<Rightarrow> Inl exc | Inr united \<Rightarrow> Inr (united, b)))
       \<and> (\<forall>k exc.
            k < getNumGeometries g \<and>
            buffer env (BufferBuilder_new (bufParams b)) (getGeometryN g k) distance = Inl exc \<and>
            (\<forall>j < k. \<exists>r. buffer env (BufferBuilder_new (bufParams b)) (getGeometryN g j) distance = Inr r)
            \<longrightarrow> buffer env b g distance = Inl exc)
       \<and> bufParams (BufferBuilder_new (bufParams b)) = bufParams b
       \<and> edgeList (BufferBuilder_new (bufParams b)) = []"
proof -
  let ?sub = "\<lambda>i. buffer env (BufferBuilder_new (bufParams b)) (getGeometryN g i) distance"
  let ?rs = "map (\<lambda>i. map_sum id fst (?sub i)) [0..<getNumGeometries g]"
  have unfold: "buffer env b g distance =
     (case collectResults ?rs of
        Inl exc \<Rightarrow> Inl exc
      | Inr geoms \<Rightarrow>
          (case unaryUnion env geoms of Inl exc \<Rightarrow> Inl exc | Inr united \<Rightarrow> Inr (united, b)))"
    using assms by (simp add: buffer.simps [of env b g distance] Let_def)
  have ok: "buffer env b g distance =
              (case unaryUnion env results of Inl exc \<Rightarrow> Inl exc | Inr united \<Rightarrow> Inr (united, b))"
    if len: "length results = getNumGeometries g"
      and all: "\<forall>i < getNumGeometries g. \<exists>subbuilder'. ?sub i = Inr (results ! i, subbuilder')"
    for results
  proof -
    have "?rs = map Inr results"
    proof (rule nth_equalityI)
      show "length ?rs = length (map Inr results)" using len by simp
    next
      fix i assume "i < length ?rs"
      then have i: "i < getNumGeometries g" by simp
      with all obtain sb where "?sub i = Inr (results ! i, sb)" by blast
      with i len show "?rs ! i = map Inr results ! i" by simp
    qed
    then have "collectResults ?rs = Inr results"
      by (simp add: collectResults_Inr)
    with unfold show ?thesis by simp
  qed
  have bad: "buffer env b g distance = Inl exc"
    if k: "k < getNumGeometries g" and e: "?sub k = Inl exc"
      and before: "\<forall>j < k. \<exists>r. ?sub j = Inr r"
    for k exc
  proof -
    have "?rs ! k = Inl exc" using k e by simp
    moreover have "\<forall>j < k. \<exists>v. ?rs ! j = Inr v"
    proof (intro allI impI)
      fix j assume j: "j < k"
      with before obtain r where "?sub j = Inr r" by blast
      with j k show "\<exists>v. ?rs ! j = Inr v" by simp
    qed
    ultimately have "collectResults ?rs = Inl exc"
      using k by (subst collectResults_Inl) (intro exI [of _ k], simp)
    with unfold show ?thesis by simp
  qed
  from ok bad show ?thesis
    by (simp add: BufferBuilder_new_fresh) blast
qed

theorem buffer_singleSided_components_witness:
  "isSingleSided (bufParams (BufferBuilder_new singleSidedParams)) \<and>
   getNumGeometries twoLines > 1 \<and>
   buffer smallWorld (BufferBuilder_new singleSidedParams) twoLines 1 =
     Inr (GeometryCollection [Polygon [pt 0 0] [], Polygon [pt 0 5] []],
          BufferBuilder_new singleSidedParams)"
proof -
  let ?b = "BufferBuilder_new singleSidedParams"
  have p: "bufParams ?b = singleSidedParams"
    by (simp add: BufferBuilder_new_def)
  have ss: "isSingleSided (bufParams ?b)"
    by (simp add: BufferBuilder_new_def isSingleSided_def singleSidedParams_def)
  have n: "getNumGeometries twoLines = 2"
    by (simp add: getNumGeometries_def twoLines_def)
  then have n1: "getNumGeometries twoLines > 1" by simp
  have g0: "getGeometryN twoLines 0 = LineString [pt 0 0, pt 1 0]"
    and g1: "getGeometryN twoLines (Suc 0) = LineString [pt 0 5, pt 1 5]"
    by (simp_all add: getGeometryN_def twoLines_def unitLine_def otherLine_def)
  have subs: "\<forall>i < getNumGeometries twoLines. \<exists>subbuilder'.
     buffer smallWorld (BufferBuilder_new (bufParams ?b)) (getGeometryN twoLines i) 1 =
       Inr ([Polygon [pt 0 0] [], Polygon [pt 0 5] []] ! i, subbuilder')"
  proof (intro allI impI)
    fix i assume "i < getNumGeometries twoLines"
    with n have "i = 0 \<or> i = 1" by auto
    then show "\<exists>subbuilder'.
      buffer smallWorld (BufferBuilder_new (bufParams ?b)) (getGeometryN twoLines i) 1 =
        Inr ([Polygon [pt 0 0] [], Polygon [pt 0 5] []] ! i, subbuilder')"
      using buffer_line_smallWorld [of singleSidedParams 0]
        buffer_line_smallWorld [of singleSidedParams 5]
      by (auto simp: p g0 g1)
  qed
  from buffer_singleSided_components [OF ss n1, of smallWorld 1] subs n
  have "buffer smallWorld ?b twoLines 1 =
          (case unaryUnion smallWorld [Polygon [pt 0 0] [], Polygon [pt 0 5] []] of
             Inl exc \<Rightarrow> Inl exc | Inr united \<Rightarrow> Inr (united, ?b))"
    by auto
  with ss n1 show ?thesis by (simp add: smallWorld_simps)
qed


lemma bufferWhole_no_curves:
  assumes "\<not> interruptRequested env 0"
    and "getCurves env g distance
           (case workingPrecisionModel b of None \<Rightarrow> getPrecisionModel env g | Some pm \<Rightarrow> pm)
           (bufParams b) (isInvertOrientation b) = []"
  shows "bufferWhole env b g distance = Inr (Polygon [] [], b)"
  using assms by (simp add: bufferWhole_def createEmptyResultGeometry_def)

text \<open>
  C3, amended. When the input is buffered as a whole (\<open>singleSided\<close> is off or the input
  has at most one component), no interrupt is pending at the first check and the curve-set
  builder produces no curves, \<open>buffer\<close> returns the empty polygon, whatever the kind of
  the input, and leaves the builder as it was.
\<close>

theorem buffer_no_curves_empty_polygon:
  assumes "\<not> (isSingleSided (bufParams b) \<and> getNumGeometries g > 1)"
    and "\<not> interruptRequested env 0"
    and "getCurves env g distance
           (case workingPrecisionModel b of None \<Rightarrow> getPrecisionModel env g | Some pm \<Rightarrow> pm)
           (bufParams b) (isInvertOrientation b) = []"
  shows "buffer env b g distance = Inr (Polygon [] [], b)"
proof -
  from assms(1) have "buffer env b g distance = bufferWhole env b g distance"
    by (subst buffer.simps) auto
  with assms(2,3) show ?thesis
    by (simp add: bufferWhole_no_curves)
qed

theorem buffer_no_curves_empty_polygon_witness:
  "\<not> (isSingleSided (bufParams (BufferBuilder_new defaultParams)) \<and> getNumGeometries unitSquare > 1) \<and>
   \<not> interruptRequested smallWorld 0 \<and>
   getCurves smallWorld unitSquare (- 1) Floating defaultParams False = [] \<and>
   buffer smallWorld (BufferBuilder_new defaultParams) unitSquare (- 1) =
     Inr (Polygon [] [], BufferBuilder_new defaultParams)"
proof -
  let ?b = "BufferBuilder_new defaultParams"
  have a: "\<not> (isSingleSided (bufParams ?b) \<and> getNumGeometries unitSquare > 1)"
    by (simp add: getNumGeometries_def unitSquare_def)
  have i: "\<not> interruptRequested smallWorld 0"
    by (simp add: smallWorld_simps)
  have c: "getCurves smallWorld unitSquare (- 1)
             (case workingPrecisionModel ?b of None \<Rightarrow> getPrecisionModel smallWorld unitSquare
                                             | Some pm \<Rightarrow> pm)
             (bufParams ?b) (isInvertOrientation ?b) = []"
    by (simp add: smallWorld_simps)
  have c': "getCurves smallWorld unitSquare (- 1) Floating defaultParams False = []"
    by (simp add: smallWorld_simps)
  from buffer_no_curves_empty_polygon [OF a i c] a i c' show ?thesis by simp
qed

text \<open>
  C3, as stated, fails for a linear input: the line from (0, 0) to (1, 0) has no curves at
  distance 0 and its buffer is the empty polygon, not an empty line.
\<close>

theorem buffer_no_curves_linear_not_empty_line:
  "getCurves smallWorld unitLine 0 Floating defaultParams False = [] \<and>
   buffer smallWorld (BufferBuilder_new defaultParams) unitLine 0 =
     Inr (Polygon [] [], BufferBuilder_new defaultParams) \<and>
   Polygon [] [] \<noteq> LineString []"
proof -
  let ?b = "BufferBuilder_new defaultParams"
  have one: "getNumGeometries unitLine = 1"
    by (simp add: getNumGeometries_def unitLine_def)
  have c: "getCurves smallWorld unitLine 0 Floating defaultParams False = []"
    by (simp add: smallWorld_simps)
  have "bufferWhole smallWorld ?b unitLine 0 = Inr (Polygon [] [], ?b)"
    by (rule bufferWhole_no_curves) (simp_all add: smallWorld_simps)
  then have "buffer smallWorld ?b unitLine 0 = Inr (Polygon [] [], ?b)"
    by (simp add: buffer.simps [of smallWorld ?b unitLine 0] one)
  with c show ?thesis by simp
qed

lemma insertUniqueEdge_bufParams: "bufParams (insertUniqueEdge b e) = bufParams b"
  by (simp add: insertUniqueEdge_def Let_def split: option.splits)

lemma insertNodedEdges_bufParams:
  "insertNodedEdges strs b = Inr b' \<Longrightarrow> bufParams b' = bufParams b"
proof (induction strs arbitrary: b)
  case Nil
  then show ?case by simp
next
  case (Cons segStr rest)
  then show ?case
    by (auto simp: Let_def insertUniqueEdge_bufParams split: if_splits option.splits)
qed

lemma computeNodedEdges_bufParams:
  "computeNodedEdges env b strs pm = Inr b' \<Longrightarrow> bufParams b' = bufParams b"
  by (auto simp: computeNodedEdges_def getNoder_def Let_def
        dest: insertNodedEdges_bufParams split: option.splits)

text \<open>
  Where the subgraph stage sits in \<open>buffer\<close>: for an input buffered as a whole, with no
  interrupt and some curve, the result is assembled from the polygon builder that
  \<open>buildSubgraphs\<close> returns for the subgraphs that \<open>createSubgraphs\<close> returns.
\<close>

lemma buffer_assembled:
  assumes "\<not> (isSingleSided (bufParams b) \<and> getNumGeometries g > 1)"
    and "\<forall>k. \<not> interruptRequested env k"
    and "precisionModel = (case workingPrecisionModel b of
                             None \<Rightarrow> getPrecisionModel env g | Some pm \<Rightarrow> pm)"
    and "bufferSegStrList = getCurves env g distance precisionModel (bufParams b) (isInvertOrientation b)"
    and "bufferSegStrList \<noteq> []"
    and "computeNodedEdges env b bufferSegStrList precisionModel = Inr b1"
    and "createSubgraphs env (addEdges env (edgeList b1)) [] = Inr subgraphList"
    and "buildSubgraphs env subgraphList (newPolygonBuilder env) = Inr polyBuilder"
  shows "buffer env b g distance =
           (let resultPolyList = getPolygons env polyBuilder
            in if resultPolyList = [] then Inr (createEmptyResultGeometry, b1)
               else (let resultGeom = buildGeometry env resultPolyList
                     in if isSingleSided (bufParams b) then
                          (case singleSidedCleanup env g resultGeom of
                             Inl exc \<Rightarrow> Inl exc
                           | Inr cleaned \<Rightarrow> Inr (cleaned, b1))
                        else Inr (resultGeom, b1)))"
proof -
  from assms(1) have "buffer env b g distance = bufferWhole env b g distance"
    by (subst buffer.simps) auto
  moreover from assms(6) have "bufParams b1 = bufParams b"
    by (rule computeNodedEdges_bufParams)
  ultimately show ?thesis
    using assms(2-8) by (simp add: bufferWhole_def Let_def)
qed




lemma biggestPolygon_none:
  "\<forall>p \<in> set polys. area p \<le> maxArea \<Longrightarrow> biggestPolygon area polys biggest maxArea = biggest"
  by (induction polys arbitrary: biggest maxArea) auto

lemma biggestPolygon_some:
  "\<exists>p \<in> set polys. area p > maxArea \<Longrightarrow>
   \<exists>i < length polys. biggestPolygon area polys biggest maxArea = Some (polys ! i) \<and>
      area (polys ! i) > maxArea \<and>
      (\<forall>q \<in> set polys. area q \<le> area (polys ! i)) \<and>
      (\<forall>j < i. area (polys ! j) < area (polys ! i))"
proof (induction polys arbitrary: biggest maxArea)
  case Nil
  then show ?case by simp
next
  case (Cons poly rest)
  show ?case
  proof (cases "area poly > maxArea")
    case True
    show ?thesis
    proof (cases "\<exists>p \<in> set rest. area p > area poly")
      case False
      then have "biggestPolygon area rest (Some poly) (area poly) = Some poly"
        by (intro biggestPolygon_none) (auto simp: not_less)
      with True False show ?thesis
        by (intro exI [of _ 0]) (auto simp: not_less)
    next
      case more: True
      from Cons.IH [OF more, of "Some poly"] obtain i where i: "i < length rest"
        "biggestPolygon area rest (Some poly) (area poly) = Some (rest ! i)"
        "area (rest ! i) > area poly"
        "\<forall>q \<in> set rest. area q \<le> area (rest ! i)"
        "\<forall>j < i. area (rest ! j) < area (rest ! i)"
        by blast
      have "\<forall>j < Suc i. area ((poly # rest) ! j) < area ((poly # rest) ! Suc i)"
      proof (intro allI impI)
        fix j assume "j < Suc i"
        with i(3,5) show "area ((poly # rest) ! j) < area ((poly # rest) ! Suc i)"
          by (cases j) auto
      qed
      with True i show ?thesis
        by (intro exI [of _ "Suc i"]) (auto intro: less_imp_le order.strict_trans)
    qed
  next
    case False
    with Cons.prems have more: "\<exists>p \<in> set rest. area p > maxArea" by auto
    from Cons.IH [OF more, of biggest] obtain i where i: "i < length rest"
        "biggestPolygon area rest biggest maxArea = Some (rest ! i)"
        "area (rest ! i) > maxArea"
        "\<forall>q \<in> set rest. area q \<le> area (rest ! i)"
        "\<forall>j < i. area (rest ! j) < area (rest ! i)"
      by blast
    have "\<forall>j < Suc i. area ((poly # rest) ! j) < area ((poly # rest) ! Suc i)"
    proof (intro allI impI)
      fix j assume "j < Suc i"
      with i(3,5) False show "area ((poly # rest) ! j) < area ((poly # rest) ! Suc i)"
        by (cases j) auto
    qed
    with False i show ?thesis
      by (intro exI [of _ "Suc i"]) auto
  qed
qed

text \<open>
  C9. In the single-sided branch of \<open>buffer\<close> (\<open>singleSided\<close> set, the input buffered
  as a whole, no interrupt, some curve and some assembled polygon), \<open>resultGeom\<close> is the
  buffer geometry assembled from the polygon builder and \<open>polys\<close> are the polygons that the
  polygonizer forms from the union of the input linework and the boundary of
  \<open>resultGeom\<close>, each of a positive area as the polygons of a polygonizer are. When more
  than one polygon is formed, \<open>buffer\<close> returns the polygon of greatest area (the first
  of them) and discards the others; when zero or one polygon is formed, it returns
  \<open>resultGeom\<close> unchanged.
\<close>

theorem buffer_singleSided_biggest_polygon:
  assumes "isSingleSided (bufParams b)" and "getNumGeometries g \<le> 1"
    and "\<forall>k. \<not> interruptRequested env k"
    and "precisionModel = (case workingPrecisionModel b of
                             None \<Rightarrow> getPrecisionModel env g | Some pm \<Rightarrow> pm)"
    and "bufferSegStrList = getCurves env g distance precisionModel (bufParams b) (isInvertOrientation b)"
    and "bufferSegStrList \<noteq> []"
    and "computeNodedEdges env b bufferSegStrList precisionModel = Inr b1"
    and "createSubgraphs env (addEdges env (edgeList b1)) [] = Inr subgraphList"
    and "buildSubgraphs env subgraphList (newPolygonBuilder env) = Inr polyBuilder"
    and "getPolygons env polyBuilder \<noteq> []"
    and "resultGeom = buildGeometry env (getPolygons env polyBuilder)"
    and "overlayUnion env (if getDimension env g > 1 then getBoundary env g else g)
           (getBoundary env resultGeom) = Inr nodedLinework"
    and "polys = polygonize env nodedLinework"
    and "\<forall>p \<in> set polys. 0 < getArea env p"
  shows "(length polys > 1 \<longrightarrow>
            (\<exists>i < length polys.
               buffer env b g distance = Inr (polys ! i, b1) \<and>
               (\<forall>q \<in> set polys. getArea env q \<le> getArea env (polys ! i)) \<and>
               (\<forall>j < i. getArea env (polys ! j) < getArea env (polys ! i))))
       \<and> (length polys \<le> 1 \<longrightarrow> buffer env b g distance = Inr (resultGeom, b1))"
proof -
  from assms(2) have whole: "\<not> (isSingleSided (bufParams b) \<and> getNumGeometries g > 1)"
    by simp
  have clean: "singleSidedCleanup env g resultGeom =
      (if length polys > 1 then
         (case biggestPolygon (getArea env) polys None 0 of
            Some gg \<Rightarrow> Inr gg
          | None \<Rightarrow> Inr resultGeom)
       else Inr resultGeom)"
    using assms(12,13) by (simp add: singleSidedCleanup_def Let_def)
  have run: "buffer env b g distance =
               (case singleSidedCleanup env g resultGeom of
                  Inl exc \<Rightarrow> Inl exc
                | Inr cleaned \<Rightarrow> Inr (cleaned, b1))"
    using buffer_assembled [OF whole assms(3-9)] assms(1,10,11) by (simp add: Let_def)
  have big: "\<exists>i < length polys.
               buffer env b g distance = Inr (polys ! i, b1) \<and>
               (\<forall>q \<in> set polys. getArea env q \<le> getArea env (polys ! i)) \<and>
               (\<forall>j < i. getArea env (polys ! j) < getArea env (polys ! i))"
    if more: "length polys > 1"
  proof -
    from more obtain p where "p \<in> set polys" by (cases polys) auto
    with assms(14) have "\<exists>p \<in> set polys. getArea env p > 0" by blast
    from biggestPolygon_some [OF this, of None] obtain i where "i < length polys"
      "biggestPolygon (getArea env) polys None 0 = Some (polys ! i)"
      "\<forall>q \<in> set polys. getArea env q \<le> getArea env (polys ! i)"
      "\<forall>j < i. getArea env (polys ! j) < getArea env (polys ! i)"
      by blast
    with run clean more show ?thesis by auto
  qed
  have few: "buffer env b g distance = Inr (resultGeom, b1)" if "length polys \<le> 1"
    using run clean that by simp
  from big few show ?thesis by blast
qed

lemma squareWorld_simps:
  "getPrecisionModel squareWorld g = Floating"
  "getCurves squareWorld g distance pm params invert =
     (if distance \<le> 0 then []
      else (case g of LineString cs \<Rightarrow> [\<lparr>ssCoords = cs, ssData = Some labelInteriorLeft\<rparr>]
                    | other \<Rightarrow> []))"
  "MCIndexNoder squareWorld pm = (\<lambda>segStrs. segStrs)"
  "interruptRequested squareWorld k = False"
  "newPolygonBuilder squareWorld = []"
  "getPolygons squareWorld polys = polys"
  "addEdges squareWorld edges = map (\<lambda>e. (firstPoint (edgePts e), False)) edges"
  "buildGeometry squareWorld gs = (case gs of [g] \<Rightarrow> g | other \<Rightarrow> MultiPolygon gs)"
  "overlayUnion squareWorld g h = Inr (GeometryCollection [g, h])"
  "polygonize squareWorld g = [unitSquare, bigSquare, halfSquare]"
  "getArea squareWorld unitSquare = 1" "getArea squareWorld bigSquare = 4"
  "getArea squareWorld halfSquare = 1 / 2"
  by (simp_all add: squareWorld_def smallWorld_def unitSquare_def bigSquare_def halfSquare_def pt_def)

theorem buffer_singleSided_biggest_polygon_witness:
  "isSingleSided (bufParams (BufferBuilder_new singleSidedParams)) \<and>
   getNumGeometries unitLine \<le> 1 \<and>
   polygonize squareWorld
     (GeometryCollection [unitLine, getBoundary squareWorld (Polygon [pt 0 0] [])])
     = [unitSquare, bigSquare, halfSquare] \<and>
   list_all (\<lambda>p. 0 < getArea squareWorld p) [unitSquare, bigSquare, halfSquare] \<and>
   buffer squareWorld (BufferBuilder_new singleSidedParams) unitLine 1 =
     Inr (bigSquare, lineBuilder singleSidedParams [pt 0 0, pt 1 0]) \<and>
   polygonize smallWorld
     (GeometryCollection [unitLine, getBoundary smallWorld (Polygon [pt 0 0] [])]) = [] \<and>
   buffer smallWorld (BufferBuilder_new singleSidedParams) unitLine 1 =
     Inr (Polygon [pt 0 0] [], lineBuilder singleSidedParams [pt 0 0, pt 1 0])"
proof -
  let ?b = "BufferBuilder_new singleSidedParams"
  let ?b1 = "lineBuilder singleSidedParams [pt 0 0, pt 1 0]"
  let ?cs = "[pt 0 0, pt 1 0]"
  let ?curves = "[\<lparr>ssCoords = ?cs, ssData = Some labelInteriorLeft\<rparr>]"
  let ?sgs = "[\<lparr>rightMostCoord = pt 0 0, sgBody = None :: int option\<rparr>]"
  let ?polys = "[unitSquare, bigSquare, halfSquare]"
  have ss: "isSingleSided (bufParams ?b)"
    by (simp add: BufferBuilder_new_def isSingleSided_def singleSidedParams_def)
  have one: "getNumGeometries unitLine \<le> 1"
    by (simp add: getNumGeometries_def unitLine_def)
  have dd: "depthDelta labelInteriorLeft = 1"
    by (simp add: depthDelta_def getLocation_def tlGet_def labelInteriorLeft_def)
  have el: "edgeList ?b1 = [\<lparr>edgePts = ?cs, edgeLabel = labelInteriorLeft, edgeDepthDelta = 1\<rparr>]"
    by (simp add: lineBuilder_def BufferBuilder_new_def)
  have facts:
    "\<forall>k. \<not> interruptRequested w k"
    "Floating = (case workingPrecisionModel ?b of
                   None \<Rightarrow> getPrecisionModel w unitLine | Some pm \<Rightarrow> pm)"
    "?curves = getCurves w unitLine 1 Floating (bufParams ?b) (isInvertOrientation ?b)"
    "computeNodedEdges w ?b ?curves Floating = Inr ?b1"
    "createSubgraphs w (addEdges w (edgeList ?b1)) [] = Inr ?sgs"
    "buildSubgraphs w ?sgs (newPolygonBuilder w) = Inr [Polygon [pt 0 0] []]"
    "getPolygons w [Polygon [pt 0 0] []] \<noteq> []"
    "Polygon [pt 0 0] [] = buildGeometry w (getPolygons w [Polygon [pt 0 0] []])"
    "overlayUnion w (if getDimension w unitLine > 1 then getBoundary w unitLine else unitLine)
       (getBoundary w (Polygon [pt 0 0] []))
       = Inr (GeometryCollection [unitLine, getBoundary w (Polygon [pt 0 0] [])])"
    if "w = squareWorld \<or> w = smallWorld" for w
  proof -
    have noder: "getNoder w ?b Floating = (\<lambda>segStrs. segStrs, ?b\<lparr>li := Some Floating\<rparr>)"
      using that by (auto simp: getNoder_def BufferBuilder_new_def squareWorld_def smallWorld_def)
    show "computeNodedEdges w ?b ?curves Floating = Inr ?b1"
      unfolding computeNodedEdges_def noder
      by (simp add: removeRepeatedPoints_def pt_def insertUniqueEdge_def Edge_new_def
            BufferBuilder_new_def EdgeList_add_def dd lineBuilder_def Let_def)
    show "createSubgraphs w (addEdges w (edgeList ?b1)) [] = Inr ?sgs"
      using that
      by (auto simp: el createSubgraphs_def insertionSort_def squareWorld_def smallWorld_def
            firstPoint_def)
    show "buildSubgraphs w ?sgs (newPolygonBuilder w) = Inr [Polygon [pt 0 0] []]"
      using that
      by (auto simp: buildSubgraphs_def getRightmostCoordinate_def squareWorld_def smallWorld_def
            Let_def)
  qed (use that in \<open>auto simp: squareWorld_def smallWorld_def BufferBuilder_new_def unitLine_def\<close>)
  have ne: "?curves \<noteq> []" by simp
  have p1: "?polys = polygonize squareWorld
              (GeometryCollection [unitLine, getBoundary squareWorld (Polygon [pt 0 0] [])])"
    by (simp add: squareWorld_simps)
  have a1: "\<forall>p \<in> set ?polys. 0 < getArea squareWorld p"
    by (simp add: squareWorld_simps)
  have sq: "squareWorld = squareWorld \<or> squareWorld = smallWorld" by simp
  from buffer_singleSided_biggest_polygon
         [OF ss one facts(1) [OF sq] facts(2) [OF sq] facts(3) [OF sq] ne facts(4) [OF sq]
             facts(5) [OF sq] facts(6) [OF sq] facts(7) [OF sq] facts(8) [OF sq] facts(9) [OF sq]
             p1 a1]
  obtain i where i: "i < length ?polys"
    "buffer squareWorld ?b unitLine 1 = Inr (?polys ! i, ?b1)"
    "\<forall>q \<in> set ?polys. getArea squareWorld q \<le> getArea squareWorld (?polys ! i)"
    by auto
  from i(1) have "i = 0 \<or> i = 1 \<or> i = 2" by auto
  moreover from i(3) have "getArea squareWorld bigSquare \<le> getArea squareWorld (?polys ! i)"
    by simp
  ultimately have "i = 1" by (auto simp: squareWorld_simps)
  with i(2) have r1: "buffer squareWorld ?b unitLine 1 = Inr (bigSquare, ?b1)" by simp
  have p2: "[] = polygonize smallWorld
              (GeometryCollection [unitLine, getBoundary smallWorld (Polygon [pt 0 0] [])])"
    by (simp add: smallWorld_simps)
  have a2: "\<forall>p \<in> set []. 0 < getArea smallWorld p" by simp
  have sm: "smallWorld = squareWorld \<or> smallWorld = smallWorld" by simp
  from buffer_singleSided_biggest_polygon
         [OF ss one facts(1) [OF sm] facts(2) [OF sm] facts(3) [OF sm] ne facts(4) [OF sm]
             facts(5) [OF sm] facts(6) [OF sm] facts(7) [OF sm] facts(8) [OF sm] facts(9) [OF sm]
             p2 a2]
  have r2: "buffer smallWorld ?b unitLine 1 = Inr (Polygon [pt 0 0] [], ?b1)" by simp
  from ss one p1 a1 r1 p2 r2 show ?thesis by (simp add: list_all_iff)
qed


section \<open>Properties of bufferLineSingleSided\<close>

text \<open>
  C5. \<open>bufferLineSingleSided\<close> raises IllegalArgumentException for every geometry that
  is not a LineString, and for a LineString at distance 0 it returns a clone of the input,
  whatever the collaborators are, with the builder as it was.
\<close>

theorem bufferLineSingleSided_guards:
  "((\<forall>lcoords. g \<noteq> LineString lcoords) \<longrightarrow>
      bufferLineSingleSided env b g distance leftSide = Inl IllegalArgumentException) \<and>
   bufferLineSingleSided env b (LineString lcoords) 0 leftSide = Inr (clone (LineString lcoords), b) \<and>
   clone (LineString lcoords) = LineString lcoords"
  by (cases g) (simp_all add: bufferLineSingleSided_def clone_def)

theorem bufferLineSingleSided_guards_witness:
  "(\<forall>lcoords. Point [pt 0 0] \<noteq> LineString lcoords) \<and>
   bufferLineSingleSided smallWorld (BufferBuilder_new defaultParams) (Point [pt 0 0]) 1 True
     = Inl IllegalArgumentException \<and>
   bufferLineSingleSided smallWorld (BufferBuilder_new defaultParams) unitLine 0 True
     = Inr (unitLine, BufferBuilder_new defaultParams)"
proof -
  have h: "\<forall>lcoords. Point [pt 0 0] \<noteq> LineString lcoords" by simp
  from bufferLineSingleSided_guards
         [of "Point [pt 0 0]" smallWorld "BufferBuilder_new defaultParams" 1 True "[pt 0 0, pt 1 0]"] h
  show ?thesis by (simp add: unitLine_def)
qed

lemma trimLine_Some_length:
  "length coords < 2 ^ 64 \<Longrightarrow> trimLine env coords startPoint endPoint distance lineLength = Some cs
     \<Longrightarrow> 1 < length cs"
  using trimLine_passes [OF _ refl refl refl, where coords = coords and env = env
      and distance = distance and lineLength = lineLength and startPoint = startPoint
      and endPoint = endPoint]
  by (auto split: if_splits)

lemma trimMergedLines_lines:
  assumes "\<forall>cs \<in> set mergedLines. length cs < 2 ^ 64"
    and "x \<in> set (trimMergedLines env mergedLines startPoint endPoint distance lineLength)"
  shows "\<exists>cs. x = LineString cs \<and> 1 < length cs"
proof -
  from assms(2) obtain coords cs where "coords \<in> set mergedLines"
    "trimLine env coords startPoint endPoint distance lineLength = Some cs" "x = LineString cs"
    by (auto simp: trimMergedLines_def List.map_filter_def)
  with assms(1) show ?thesis
    using trimLine_Some_length by blast
qed

text \<open>
  C8. When the pipeline of \<open>bufferLineSingleSided\<close> yields the merged lines
  \<open>mergedLines\<close> (each of fewer than 2^64 points) and \<open>lines\<close> are the trimmed
  polylines that remain after the clean-up, every one of them a LineString of at least two
  points, the result is that LineString when exactly one remains, the MultiLineString of
  them when more than one remains, and the empty LineString when none remains; none remains,
  in particular, when the intersection gave no merged line.
\<close>

theorem bufferLineSingleSided_result_kind:
  assumes "distance \<noteq> 0"
    and "singleSidedMergedLines env b lcoords distance leftSide = Inr (mergedLines, b1)"
    and "lcoords \<noteq> [] \<or> mergedLines = []"
    and "\<forall>cs \<in> set mergedLines. length cs < 2 ^ 64"
    and "lines = trimMergedLines env mergedLines (hd lcoords) (last lcoords) distance
                   (getLength env lcoords)"
  shows "(\<forall>x \<in> set lines. \<exists>cs. x = LineString cs \<and> 1 < length cs)
       \<and> (length lines = 1 \<longrightarrow>
            bufferLineSingleSided env b (LineString lcoords) distance leftSide = Inr (lines ! 0, b1))
       \<and> (length lines > 1 \<longrightarrow>
            bufferLineSingleSided env b (LineString lcoords) distance leftSide
              = Inr (MultiLineString lines, b1))
       \<and> (lines = [] \<longrightarrow>
            bufferLineSingleSided env b (LineString lcoords) distance leftSide
              = Inr (LineString [], b1))
       \<and> (mergedLines = [] \<longrightarrow> lines = [])"
proof -
  have empty: "lines = []" if "mergedLines = []"
    using that assms(5) by (simp add: trimMergedLines_def List.map_filter_simps)
  have run: "bufferLineSingleSided env b (LineString lcoords) distance leftSide =
               Inr (singleSidedResult lines, b1)"
  proof (cases "lcoords = []")
    case True
    with assms(3) have "mergedLines = []" by simp
    with True assms(1,2) empty show ?thesis
      by (simp add: bufferLineSingleSided_def)
  next
    case False
    with assms(1,2,5) show ?thesis
      by (simp add: bufferLineSingleSided_def Let_def)
  qed
  have kinds: "\<forall>x \<in> set lines. \<exists>cs. x = LineString cs \<and> 1 < length cs"
    using trimMergedLines_lines [OF assms(4)] assms(5) by blast
  from run kinds empty show ?thesis
    by (auto simp: singleSidedResult_def)
qed

lemma singleSidedMergedLines_mergerWorld:
  assumes "remdups_adj cs = cs" and "2 \<le> length cs" and "0 < d"
  shows "singleSidedMergedLines (mergerWorld m) (BufferBuilder_new defaultParams) cs d True =
     Inr (m (MultiLineString [LineString (map (\<lambda>p. pt (cx p) (cy p + d)) cs)]),
          (BufferBuilder_new defaultParams)\<lparr>li := Some Floating\<rparr>)"
proof -
  let ?b = "BufferBuilder_new defaultParams"
  let ?mod = "defaultParams\<lparr>endCapStyle := CAP_FLAT, singleSided := False\<rparr>"
  have noder: "getNoder (mergerWorld m) ?b Floating = (\<lambda>segStrs. segStrs, ?b\<lparr>li := Some Floating\<rparr>)"
    by (simp add: getNoder_def BufferBuilder_new_def mergerWorld_simps)
  have buf: "buffer (mergerWorld m) (BufferBuilder_new ?mod) (LineString cs) d =
               Inr (Polygon [hd cs] [], lineBuilder ?mod cs)"
    using assms by (rule buffer_line_mergerWorld)
  show ?thesis
    unfolding singleSidedMergedLines_def Let_def BufferBuilder_new_fresh
    by (simp add: mergerWorld_simps buf noder)
qed

text \<open>The arithmetic of doubles on small integers and near the allowances.\<close>

lemma doubleDistance_Ints:
  assumes "dx = a - c" and "dy = b - d" and "dx \<in> \<int>" and "dy \<in> \<int>" and "r \<in> \<int>"
    and "0 \<le> r" and "r < 2 ^ 26" and "dx\<^sup>2 + dy\<^sup>2 = r\<^sup>2"
  shows "doubleDistance (pt a b) (pt c d) = r"
proof -
  have r2: "r\<^sup>2 < 2 ^ 52"
  proof -
    have "r\<^sup>2 < (2 ^ 26)\<^sup>2" using assms(6,7) by (intro power_strict_mono) simp_all
    then show ?thesis by simp
  qed
  have "dx\<^sup>2 \<le> dx\<^sup>2 + dy\<^sup>2" "dy\<^sup>2 \<le> dx\<^sup>2 + dy\<^sup>2" by simp_all
  then have sq: "dx\<^sup>2 \<le> r\<^sup>2" "dy\<^sup>2 \<le> r\<^sup>2" using assms(8) by simp_all
  then have ax: "\<bar>dx\<bar> \<le> r" and ay: "\<bar>dy\<bar> \<le> r"
    using assms(6) by (simp_all add: abs_le_square_iff [symmetric])
  have x1: "roundDouble dx = dx" and y1: "roundDouble dy = dy"
    using ax ay assms(3,4,7) by (intro roundDouble_Ints; simp)+
  have sx: "\<bar>dx * dx\<bar> < 2 ^ 53" and sy: "\<bar>dy * dy\<bar> < 2 ^ 53"
    using sq r2 by (simp_all add: power2_eq_square)
  have x2: "roundDouble (dx * dx) = dx * dx" and y2: "roundDouble (dy * dy) = dy * dy"
    using assms(3,4) sx sy by (intro roundDouble_Ints; simp)+
  have s: "dx * dx + dy * dy = r * r"
    using assms(8) by (simp add: power2_eq_square)
  have s2: "roundDouble (r * r) = r * r"
    using assms(5) r2 by (intro roundDouble_Ints) (simp_all add: power2_eq_square)
  have q: "sqrt (r * r) = r" using assms(6) by simp
  have r1: "roundDouble r = r"
    using assms(5,6,7) by (intro roundDouble_Ints) simp_all
  show ?thesis
    unfolding doubleDistance_def Let_def pt_sel assms(1,2) [symmetric] x1 y1 x2 y2 s s2 q r1 ..
qed

lemma roundDouble_near:
  assumes "\<bar>x\<bar> \<le> 2 ^ 40"
  shows "\<bar>roundDouble x - x\<bar> \<le> 1 / 1000"
proof -
  have "\<bar>roundDouble x - x\<bar> * 2 ^ 53 \<le> 2 ^ 40"
    using roundDouble_error [of x] assms by linarith
  then show ?thesis by simp
qed

text \<open>
  Bounds of the allowances in the arithmetic of doubles, for a distance and a length
  up to a million.
\<close>

lemma allowance_bounds:
  assumes "toDouble env = roundDouble" and "0 \<le> d" and "d \<le> 1000000"
    and "0 \<le> len" and "len \<le> 1000000"
  shows "97 / 100 * d - 1 / 100 \<le> pointAllowance env d len"
    and "pointAllowance env d len \<le> max (d - 9 / 100 * len + 1 / 100) (99 / 100 * d + 1 / 100)"
    and "101 / 100 * d - 1 / 100 \<le> segmentAllowance env d"
    and "segmentAllowance env d \<le> 103 / 100 * d + 1 / 100"
proof -
  define c1 where "c1 = roundDouble (1 / 10)"
  define c2 where "c2 = roundDouble (98 / 100)"
  define c3 where "c3 = roundDouble (102 / 100)"
  have c1: "\<bar>c1 - 1 / 10\<bar> \<le> 1 / 1000" and c2: "\<bar>c2 - 98 / 100\<bar> \<le> 1 / 1000"
    and c3: "\<bar>c3 - 102 / 100\<bar> \<le> 1 / 1000"
    unfolding c1_def c2_def c3_def by (rule roundDouble_near; simp)+
  define p1 where "p1 = len * c1"
  have p1: "9 / 100 * len \<le> p1" "p1 \<le> 11 / 100 * len"
  proof -
    have "len * (9 / 100) \<le> len * c1" "len * c1 \<le> len * (11 / 100)"
      using c1 assms(4) by (intro mult_left_mono; linarith)+
    then show "9 / 100 * len \<le> p1" "p1 \<le> 11 / 100 * len" by (simp_all add: p1_def)
  qed
  have p1b: "0 \<le> p1" "p1 \<le> 110000"
    using p1 assms(4,5) by linarith+
  define q1 where "q1 = roundDouble p1"
  have q1: "\<bar>q1 - p1\<bar> \<le> 1 / 1000"
    unfolding q1_def using p1b by (intro roundDouble_near) simp
  have q1b: "- 1 \<le> q1" "q1 \<le> 110001"
    using q1 p1b by linarith+
  define a1 where "a1 = roundDouble (d - q1)"
  have "\<bar>d - q1\<bar> \<le> 2000000"
    using q1b assms(2,3) by linarith
  then have a1: "\<bar>a1 - (d - q1)\<bar> \<le> 1 / 1000"
    unfolding a1_def by (intro roundDouble_near) simp
  define p2 where "p2 = d * c2"
  have p2: "97 / 100 * d \<le> p2" "p2 \<le> 99 / 100 * d"
  proof -
    have "d * (97 / 100) \<le> d * c2" "d * c2 \<le> d * (99 / 100)"
      using c2 assms(2) by (intro mult_left_mono; linarith)+
    then show "97 / 100 * d \<le> p2" "p2 \<le> 99 / 100 * d" by (simp_all add: p2_def)
  qed
  have p2b: "0 \<le> p2" "p2 \<le> 1000000"
    using p2 assms(2,3) by linarith+
  define a2 where "a2 = roundDouble p2"
  have a2: "\<bar>a2 - p2\<bar> \<le> 1 / 1000"
    unfolding a2_def using p2b by (intro roundDouble_near) simp
  define p3 where "p3 = c3 * d"
  have p3: "101 / 100 * d \<le> p3" "p3 \<le> 103 / 100 * d"
  proof -
    have "(101 / 100) * d \<le> c3 * d" "c3 * d \<le> (103 / 100) * d"
      using c3 assms(2) by (intro mult_right_mono; linarith)+
    then show "101 / 100 * d \<le> p3" "p3 \<le> 103 / 100 * d" by (simp_all add: p3_def)
  qed
  have p3b: "0 \<le> p3" "p3 \<le> 1030000"
    using p3 assms(2,3) by linarith+
  define a3 where "a3 = roundDouble p3"
  have a3: "\<bar>a3 - p3\<bar> \<le> 1 / 1000"
    unfolding a3_def using p3b by (intro roundDouble_near) simp
  have d: "\<bar>d\<bar> = d" using assms(2) by simp
  have pa: "pointAllowance env d len = max a1 a2"
    unfolding pointAllowance_def assms(1) d a1_def q1_def p1_def c1_def a2_def p2_def c2_def
    by simp
  have sa: "segmentAllowance env d = a3"
    unfolding segmentAllowance_def assms(1) d a3_def p3_def c3_def
    by simp
  have "97 / 100 * d - 1 / 100 \<le> a2"
    using a2 p2 by linarith
  then show "97 / 100 * d - 1 / 100 \<le> pointAllowance env d len"
    unfolding pa by linarith
  have "a1 \<le> d - 9 / 100 * len + 1 / 100" "a2 \<le> 99 / 100 * d + 1 / 100"
    using a1 q1 p1 a2 p2 by linarith+
  then show "pointAllowance env d len \<le> max (d - 9 / 100 * len + 1 / 100) (99 / 100 * d + 1 / 100)"
    unfolding pa by linarith
  show "101 / 100 * d - 1 / 100 \<le> segmentAllowance env d"
    unfolding sa using a3 p3 by linarith
  show "segmentAllowance env d \<le> 103 / 100 * d + 1 / 100"
    unfolding sa using a3 p3 by linarith
qed

lemma doubleLength_segment:
  assumes "doubleDistance p q = r" and "r \<in> \<int>" and "\<bar>r\<bar> < 2 ^ 53"
  shows "doubleLength [p, q] = r"
  using assms by (simp add: doubleLength_def roundDouble_Ints)

lemma offsetLine_distances:
  "doubleDistance (pt 0 4) (pt 0 0) = 4" "doubleDistance (pt 0 4) (pt 3 0) = 5"
  "doubleDistance (pt 3 4) (pt 0 0) = 5" "doubleDistance (pt 3 4) (pt 3 0) = 4"
  "doubleDistance (pt 0 0) (pt 3 0) = 3"
  "doubleDistance (pt 0 (- 4)) (pt 0 0) = 4" "doubleDistance (pt 0 (- 4)) (pt 3 0) = 5"
  "doubleDistance (pt 3 (- 4)) (pt 0 0) = 5" "doubleDistance (pt 3 (- 4)) (pt 3 0) = 4"
  by (rule doubleDistance_Ints [OF refl refl]; simp)+

lemma trimLine_offsetLine:
  "trimLine (mergerWorld m) [pt 0 4, pt 3 4] (pt 0 0) (pt 3 0) 4 3 = Some [pt 0 4, pt 3 4]"
  "trimLine (mergerWorld m) [pt 0 (- 4), pt 3 (- 4)] (pt 0 0) (pt 3 0) 4 3
     = Some [pt 0 (- 4), pt 3 (- 4)]"
proof -
  define pa where "pa = pointAllowance (mergerWorld m) 4 3"
  define sa where "sa = segmentAllowance (mergerWorld m) 4"
  from allowance_bounds(2) [of "mergerWorld m" 4 3] have "pa < 4"
    by (simp add: pa_def mergerWorld_simps)
  then have cmp: "(4 < pa) = False" "(5 < pa) = False" by simp_all
  have seq: "trimSequential (mergerWorld m) [pt 0 4, pt 3 4] (pt 0 0) (pt 3 0) 4 3 = [pt 0 4, pt 3 4]"
    "trimSequential (mergerWorld m) [pt 0 (- 4), pt 3 (- 4)] (pt 0 0) (pt 3 0) 4 3
       = [pt 0 (- 4), pt 3 (- 4)]"
    unfolding trimSequential_def Let_def pa_def [symmetric] sa_def [symmetric]
    by (simp_all add: shrinkBack_def mergerWorld_simps offsetLine_distances cmp)
  show "trimLine (mergerWorld m) [pt 0 4, pt 3 4] (pt 0 0) (pt 3 0) 4 3 = Some [pt 0 4, pt 3 4]"
    "trimLine (mergerWorld m) [pt 0 (- 4), pt 3 (- 4)] (pt 0 0) (pt 3 0) 4 3
       = Some [pt 0 (- 4), pt 3 (- 4)]"
    by (simp_all add: trimLine_refines seq)
qed

theorem bufferLineSingleSided_result_kind_witness:
  "bufferLineSingleSided smallWorld (BufferBuilder_new defaultParams) (LineString [pt 0 0, pt 3 0]) 4 True
     = Inr (LineString [pt 0 4, pt 3 4], (BufferBuilder_new defaultParams)\<lparr>li := Some Floating\<rparr>) \<and>
   bufferLineSingleSided (mergerWorld (\<lambda>g. [[pt 0 4, pt 3 4], [pt 0 (- 4), pt 3 (- 4)]]))
       (BufferBuilder_new defaultParams) (LineString [pt 0 0, pt 3 0]) 4 True
     = Inr (MultiLineString [LineString [pt 0 (- 4), pt 3 (- 4)], LineString [pt 0 4, pt 3 4]],
            (BufferBuilder_new defaultParams)\<lparr>li := Some Floating\<rparr>) \<and>
   bufferLineSingleSided (mergerWorld (\<lambda>g. []))
       (BufferBuilder_new defaultParams) (LineString [pt 0 0, pt 3 0]) 4 True
     = Inr (LineString [], (BufferBuilder_new defaultParams)\<lparr>li := Some Floating\<rparr>)"
proof -
  let ?b = "BufferBuilder_new defaultParams"
  let ?l = "[pt 0 0, pt 3 0]"
  let ?two = "\<lambda>g :: Geometry. [[pt 0 4, pt 3 4], [pt 0 (- 4), pt 3 (- 4)]]"
  let ?none = "\<lambda>g :: Geometry. [] :: Coordinate list list"
  have d: "(4::real) \<noteq> 0" by simp
  have len: "getLength (mergerWorld m) ?l = 3" for m
    by (simp add: mergerWorld_simps doubleLength_segment offsetLine_distances)
  have ends: "hd ?l = pt 0 0" "last ?l = pt 3 0" by simp_all
  have ne: "?l \<noteq> [] \<or> ms = []" for ms :: "Coordinate list list" by simp
  have merged: "singleSidedMergedLines (mergerWorld m) ?b ?l 4 True =
                  Inr (m (MultiLineString [LineString [pt 0 4, pt 3 4]]), ?b\<lparr>li := Some Floating\<rparr>)" for m
    using singleSidedMergedLines_mergerWorld [of ?l 4 m] by (simp add: pt_eq pt_sel)
  have m1: "singleSidedMergedLines smallWorld ?b ?l 4 True =
              Inr ([[pt 0 4, pt 3 4]], ?b\<lparr>li := Some Floating\<rparr>)"
    using merged [of "getMergedLineStrings smallWorld"]
    by (simp add: smallWorld_mergerWorld [symmetric]) (simp add: smallWorld_def)
  have s1: "\<forall>cs \<in> set [[pt 0 4, pt 3 4]]. length cs < 2 ^ 64" by simp
  have t1: "[LineString [pt 0 4, pt 3 4]] =
              trimMergedLines smallWorld [[pt 0 4, pt 3 4]] (hd ?l) (last ?l) 4 (getLength smallWorld ?l)"
    using len [of "getMergedLineStrings smallWorld"]
      trimLine_offsetLine(1) [of "getMergedLineStrings smallWorld"]
    by (simp add: smallWorld_mergerWorld [symmetric] trimMergedLines_def List.map_filter_simps)
  from bufferLineSingleSided_result_kind [OF d m1 ne s1 t1]
  have r1: "bufferLineSingleSided smallWorld ?b (LineString ?l) 4 True =
              Inr (LineString [pt 0 4, pt 3 4], ?b\<lparr>li := Some Floating\<rparr>)"
    by simp
  have m2: "singleSidedMergedLines (mergerWorld ?two) ?b ?l 4 True =
              Inr ([[pt 0 4, pt 3 4], [pt 0 (- 4), pt 3 (- 4)]], ?b\<lparr>li := Some Floating\<rparr>)"
    by (simp add: merged)
  have s2: "\<forall>cs \<in> set [[pt 0 4, pt 3 4], [pt 0 (- 4), pt 3 (- 4)]]. length cs < 2 ^ 64" by simp
  have t2: "[LineString [pt 0 (- 4), pt 3 (- 4)], LineString [pt 0 4, pt 3 4]] =
              trimMergedLines (mergerWorld ?two) [[pt 0 4, pt 3 4], [pt 0 (- 4), pt 3 (- 4)]]
                (hd ?l) (last ?l) 4 (getLength (mergerWorld ?two) ?l)"
    by (simp add: trimMergedLines_def len trimLine_offsetLine List.map_filter_simps)
  from bufferLineSingleSided_result_kind [OF d m2 ne s2 t2]
  have r2: "bufferLineSingleSided (mergerWorld ?two) ?b (LineString ?l) 4 True =
              Inr (MultiLineString [LineString [pt 0 (- 4), pt 3 (- 4)], LineString [pt 0 4, pt 3 4]],
                   ?b\<lparr>li := Some Floating\<rparr>)"
    by simp
  have m3: "singleSidedMergedLines (mergerWorld ?none) ?b ?l 4 True = Inr ([], ?b\<lparr>li := Some Floating\<rparr>)"
    by (simp add: merged)
  have s3: "\<forall>cs \<in> set ([] :: Coordinate list list). length cs < 2 ^ 64" by simp
  have t3: "[] = trimMergedLines (mergerWorld ?none) [] (hd ?l) (last ?l) 4
                   (getLength (mergerWorld ?none) ?l)"
    by (simp add: trimMergedLines_def List.map_filter_simps)
  from bufferLineSingleSided_result_kind [OF d m3 ne s3 t3]
  have r3: "bufferLineSingleSided (mergerWorld ?none) ?b (LineString ?l) 4 True =
              Inr (LineString [], ?b\<lparr>li := Some Floating\<rparr>)"
    by simp
  from r1 r2 r3 show ?thesis by simp
qed

text \<open>
  What the clean-up does to the merged lines, at a positive distance: with the allowances
  \<open>max (|d| - 0.1 * length) (0.98 * |d|)\<close> and \<open>1.02 * |d|\<close>, each merged line is shrunk
  in the four passes and kept when more than one point is left.
\<close>

lemma bufferLineSingleSided_trimmed:
  assumes "distance \<noteq> 0"
    and "singleSidedMergedLines env b lcoords distance leftSide = Inr (mergedLines, b1)"
    and "(0 < distance \<and> lcoords \<noteq> []) \<or> mergedLines = []"
    and "\<forall>cs \<in> set mergedLines. length cs < 2 ^ 64"
  shows "bufferLineSingleSided env b (LineString lcoords) distance leftSide =
           Inr (singleSidedResult
                  (trimmedLines
                     (\<lambda>coords. trimSequential env coords (hd lcoords) (last lcoords) distance
                                 (getLength env lcoords))
                     mergedLines), b1)"
proof (cases "mergedLines = []")
  case True
  with assms(1,2) show ?thesis
    by (simp add: bufferLineSingleSided_def Let_def trimMergedLines_def trimmedLines_def
          List.map_filter_simps)
next
  case False
  with assms(3) have d: "0 \<le> distance" and l: "lcoords \<noteq> []" by simp_all
  from assms(1,2) l show ?thesis
    by (simp add: bufferLineSingleSided_def Let_def trimMergedLines_refines [OF assms(4) d])
qed

lemma capLine_distances:
  "doubleDistance (pt 60 80) (pt 0 0) = 100"
  "doubleDistance (pt 60 80) (pt 60 0) = 80"
  "doubleDistance (pt 60 80) (pt 0 80) = 60"
  "doubleDistance (pt 0 80) (pt 0 0) = 80"
  "doubleDistance (pt 0 80) (pt 60 0) = 100"
  "doubleDistance (pt 0 80) (pt 0 144) = 64"
  "doubleDistance (pt 0 144) (pt 0 0) = 144"
  "doubleDistance (pt 0 144) (pt 60 0) = 156"
  "doubleDistance (pt 60 144) (pt 0 0) = 156"
  "doubleDistance (pt 60 144) (pt 60 0) = 144"
  "doubleDistance (pt 60 144) (pt 0 144) = 60"
  by (rule doubleDistance_Ints [OF refl refl]; simp)+

lemma hairpin_facts:
  "hd hairpin = pt 0 0" "last hairpin = pt 60 0" "doubleLength hairpin = 660"
  "remdups_adj hairpin = hairpin" "2 \<le> length hairpin" "hairpin \<noteq> []"
proof -
  have "doubleDistance (pt 0 0) (pt 0 (- 300)) = 300"
    "doubleDistance (pt 0 (- 300)) (pt 60 (- 300)) = 60"
    "doubleDistance (pt 60 (- 300)) (pt 60 0) = 300"
    by (rule doubleDistance_Ints [OF refl refl]; simp)+
  then show "doubleLength hairpin = 660"
    by (simp add: hairpin_def doubleLength_def roundDouble_Ints)
qed (simp_all add: hairpin_def pt_eq)

lemma capWorld_simps:
  "toDouble capWorld = roundDouble" "coordinateDistance capWorld = doubleDistance"
  "getLength capWorld = doubleLength"
  by (simp_all add: capWorld_def mergerWorld_simps)

lemma capWorld_merged:
  "singleSidedMergedLines capWorld (BufferBuilder_new defaultParams) hairpin 100 True =
     Inr ([capLine], (BufferBuilder_new defaultParams)\<lparr>li := Some Floating\<rparr>)"
  unfolding capWorld_def
  by (subst singleSidedMergedLines_mergerWorld) (simp_all add: hairpin_facts)

lemma capLine_trimmed:
  "trimSequential capWorld capLine (pt 0 0) (pt 60 0) 100 660 = [pt 0 80, pt 0 144, pt 60 144]"
  "trimAsSpecified capWorld capLine (pt 0 0) (pt 60 0) 100 660 = [pt 0 144, pt 60 144]"
proof -
  define pa where "pa = pointAllowance capWorld 100 660"
  define sa where "sa = segmentAllowance capWorld 100"
  from allowance_bounds [of capWorld 100 660]
  have "96 < pa" "pa < 100" "100 < sa"
    by (simp_all add: pa_def sa_def capWorld_simps)
  then have cmp: "(100 < pa) = False" "(80 < pa) = True" "(144 < pa) = False" "(156 < pa) = False"
    "(60 \<le> sa) = True" "(64 \<le> sa) = True"
    by simp_all
  show "trimSequential capWorld capLine (pt 0 0) (pt 60 0) 100 660 = [pt 0 80, pt 0 144, pt 60 144]"
    unfolding trimSequential_def Let_def pa_def [symmetric] sa_def [symmetric]
    by (simp add: shrinkBack_def capLine_def capWorld_simps capLine_distances cmp)
  show "trimAsSpecified capWorld capLine (pt 0 0) (pt 60 0) 100 660 = [pt 0 144, pt 60 144]"
    unfolding trimAsSpecified_def Let_def pa_def [symmetric] sa_def [symmetric]
    by (simp add: capLine_def capWorld_simps capLine_distances cmp)
qed

text \<open>
  C4, as stated, fails. Take the input line (0, 0), (0, -300), (60, -300), (60, 0): its start
  point is (0, 0), its end point (60, 0) and its length 660, so at distance 100 the point
  allowance is 98 and the segment allowance 102, up to the rounding of doubles (the proof
  needs no more than 96 to 100 for the one and above 100 for the other). When the merged
  line is (60, 80), (0, 80), (0, 144), (60, 144), the clean-up removes its first vertex,
  which is at 80 from the end point, and then keeps (0, 80): the pass against the start point
  is over by then, although (0, 80) is at 80 from the start point and its segment to (0, 144)
  has length 64. The trimming of the claim removes it as well.
\<close>

theorem bufferLineSingleSided_not_trimmed_as_specified:
  "singleSidedMergedLines capWorld (BufferBuilder_new defaultParams) hairpin 100 True =
     Inr ([capLine], (BufferBuilder_new defaultParams)\<lparr>li := Some Floating\<rparr>) \<and>
   bufferLineSingleSided capWorld (BufferBuilder_new defaultParams) (LineString hairpin) 100 True =
     Inr (LineString [pt 0 80, pt 0 144, pt 60 144],
          (BufferBuilder_new defaultParams)\<lparr>li := Some Floating\<rparr>) \<and>
   singleSidedResult
     (trimmedLines
        (\<lambda>coords. trimAsSpecified capWorld coords (hd hairpin) (last hairpin) 100
                    (getLength capWorld hairpin))
        [capLine]) = LineString [pt 0 144, pt 60 144] \<and>
   LineString [pt 0 80, pt 0 144, pt 60 144] \<noteq> LineString [pt 0 144, pt 60 144]"
proof -
  have len: "\<forall>cs \<in> set [capLine]. length cs < 2 ^ 64"
    by (simp add: capLine_def)
  have d: "(100::real) \<noteq> 0" by simp
  have pos: "((0::real) < 100 \<and> hairpin \<noteq> []) \<or> [capLine] = []"
    by (simp add: hairpin_facts)
  from bufferLineSingleSided_trimmed [OF d capWorld_merged pos len]
  have code: "bufferLineSingleSided capWorld (BufferBuilder_new defaultParams) (LineString hairpin) 100 True =
     Inr (LineString [pt 0 80, pt 0 144, pt 60 144],
          (BufferBuilder_new defaultParams)\<lparr>li := Some Floating\<rparr>)"
    by (simp add: hairpin_facts capWorld_simps capLine_trimmed trimmedLines_def singleSidedResult_def)
  have spec: "singleSidedResult
     (trimmedLines
        (\<lambda>coords. trimAsSpecified capWorld coords (hd hairpin) (last hairpin) 100
                    (getLength capWorld hairpin))
        [capLine]) = LineString [pt 0 144, pt 60 144]"
    by (simp add: hairpin_facts capWorld_simps capLine_trimmed trimmedLines_def singleSidedResult_def)
  from capWorld_merged code spec show ?thesis
    by (simp add: pt_eq)
qed

text \<open>
  C4, amended. In the clean-up of \<open>bufferLineSingleSided\<close>, which a distance d other
  than 0 reaches, with d positive when there is a merged line at all, every merged line (of
  fewer than 2^64 points) is trimmed in four passes over the points that remain: from the
  front against the start point of the input line, from the front against its end point, from
  the back against its start point, from the back against its end point. In each pass, while more than one point remains, the end vertex is removed when its
  distance to the reference point of the pass is less than
  \<open>max (|d| - 0.1 * lengthOfInputLine) (0.98 * |d|)\<close> and the adjacent segment is no longer
  than \<open>1.02 * |d|\<close>, both computed in doubles; the pass stops at the first vertex that
  fails either condition. The lines of which more than one point is left make up the result,
  taken from the last merged line to the first.
\<close>

theorem bufferLineSingleSided_trims_in_passes:
  assumes "distance \<noteq> 0"
    and "singleSidedMergedLines env b lcoords distance leftSide = Inr (mergedLines, b1)"
    and "(0 < distance \<and> lcoords \<noteq> []) \<or> mergedLines = []"
    and "\<forall>cs \<in> set mergedLines. length cs < 2 ^ 64"
  shows "bufferLineSingleSided env b (LineString lcoords) distance leftSide =
           Inr (singleSidedResult
                  (trimmedLines
                     (\<lambda>coords. trimSequential env coords (hd lcoords) (last lcoords) distance
                                 (getLength env lcoords))
                     mergedLines), b1)"
  using assms by (rule bufferLineSingleSided_trimmed)

theorem bufferLineSingleSided_trims_in_passes_witness:
  "(100::real) \<noteq> 0 \<and>
   singleSidedMergedLines capWorld (BufferBuilder_new defaultParams) hairpin 100 True =
     Inr ([capLine], (BufferBuilder_new defaultParams)\<lparr>li := Some Floating\<rparr>) \<and>
   (0::real) < 100 \<and> hairpin \<noteq> [] \<and> list_all (\<lambda>cs. length cs < 2 ^ 64) [capLine] \<and>
   trimSequential capWorld capLine (hd hairpin) (last hairpin) 100 (getLength capWorld hairpin)
     = [pt 0 80, pt 0 144, pt 60 144] \<and>
   bufferLineSingleSided capWorld (BufferBuilder_new defaultParams) (LineString hairpin) 100 True =
     Inr (LineString [pt 0 80, pt 0 144, pt 60 144],
          (BufferBuilder_new defaultParams)\<lparr>li := Some Floating\<rparr>)"
proof -
  have len: "\<forall>cs \<in> set [capLine]. length cs < 2 ^ 64"
    by (simp add: capLine_def)
  have d: "(100::real) \<noteq> 0" by simp
  have ne: "hairpin \<noteq> []" by (simp add: hairpin_facts)
  then have pos: "((0::real) < 100 \<and> hairpin \<noteq> []) \<or> [capLine] = []" by simp
  have seq: "trimSequential capWorld capLine (hd hairpin) (last hairpin) 100 (getLength capWorld hairpin)
               = [pt 0 80, pt 0 144, pt 60 144]"
    by (simp add: hairpin_facts capWorld_simps capLine_trimmed)
  from bufferLineSingleSided_trims_in_passes [OF d capWorld_merged pos len] seq
  have "bufferLineSingleSided capWorld (BufferBuilder_new defaultParams) (LineString hairpin) 100 True =
     Inr (LineString [pt 0 80, pt 0 144, pt 60 144],
          (BufferBuilder_new defaultParams)\<lparr>li := Some Floating\<rparr>)"
    by (simp add: trimmedLines_def singleSidedResult_def)
  with d capWorld_merged ne len seq show ?thesis
    by (simp add: list_all_iff)
qed

section \<open>The clean-up at the threshold\<close>

lemma roundHalfEven_near: "\<bar>q - of_int k\<bar> < 1 / 2 \<Longrightarrow> roundHalfEven q = k"
proof -
  assume a: "\<bar>q - of_int k\<bar> < 1 / 2"
  show ?thesis
  proof (cases "of_int k \<le> q")
    case True
    with a have "\<lfloor>q\<rfloor> = k" by (intro floor_unique) linarith+
    with a True show ?thesis by (simp add: roundHalfEven_def Let_def)
  next
    case False
    with a have "of_int k - 1 \<le> q" "q < of_int k" by linarith+
    then have f: "\<lfloor>q\<rfloor> = k - 1" by (intro floor_unique) simp_all
    with a False have "1 / 2 < q - of_int \<lfloor>q\<rfloor>" by simp
    with f show ?thesis by (simp add: roundHalfEven_def Let_def)
  qed
qed

lemma roundDouble_eqI:
  assumes "2 powr (of_int e) \<le> \<bar>x\<bar>" and "\<bar>x\<bar> < 2 powr (of_int e + 1)"
    and "u = 2 powr (of_int e - 52)" and "\<bar>x / u - of_int k\<bar> < 1 / 2"
  shows "roundDouble x = u * of_int k"
proof -
  have pos: "0 < \<bar>x\<bar>"
    using assms(1) powr_gt_zero [of 2 "of_int e"] by linarith
  then have x: "x \<noteq> 0" by auto
  have "of_int e \<le> log 2 \<bar>x\<bar>"
    using assms(1) pos by (simp add: le_log_iff)
  moreover have "log 2 \<bar>x\<bar> < of_int e + 1"
    using assms(2) pos by (simp add: log_less_iff)
  ultimately have "\<lfloor>log 2 \<bar>x\<bar>\<rfloor> = e"
    by (intro floor_unique) simp_all
  with x assms(3) have "roundDouble x = u * of_int (roundHalfEven (x / u))"
    by (simp add: roundDouble_def Let_def)
  with roundHalfEven_near [OF assms(4)] show ?thesis by simp
qed

lemma half_binade:
  "2 powr (of_int (- 1)) = (1 / 2 :: real)" "2 powr (of_int (- 1) + 1) = (1 :: real)"
  "2 powr (of_int (- 1) - 52) = (1 / 2 ^ 53 :: real)"
proof -
  show "2 powr (of_int (- 1)) = (1 / 2 :: real)"
    by (simp add: powr_minus_divide)
  show "2 powr (of_int (- 1) + 1) = (1 :: real)" by simp
  have "2 powr (of_int (- 1) - 52) = (2::real) powr (- real 53)" by simp
  also have "\<dots> = 1 / 2 ^ 53"
    unfolding powr_minus_divide powr_realpow [OF zero_less_numeral] ..
  finally show "2 powr (of_int (- 1) - 52) = (1 / 2 ^ 53 :: real)" .
qed

lemma nearest098:
  "roundDouble (98 / 100) = nearest098" "roundDouble nearest098 = nearest098"
  "roundDouble (nearest098 * nearest098) = 8650514164253248 / 2 ^ 53"
  "roundDouble (8650514164253248 / 2 ^ 53) = 8650514164253248 / 2 ^ 53"
  "roundDouble (sqrt (8650514164253248 / 2 ^ 53)) = nearest098"
proof -
  show "roundDouble (98 / 100) = nearest098"
    using roundDouble_eqI [of "- 1" "98 / 100" "1 / 2 ^ 53" 8827055269646172]
    unfolding half_binade by (simp add: nearest098_def)
  show "roundDouble nearest098 = nearest098"
    using roundDouble_eqI [of "- 1" nearest098 "1 / 2 ^ 53" 8827055269646172]
    unfolding half_binade by (simp add: nearest098_def)
  show "roundDouble (nearest098 * nearest098) = 8650514164253248 / 2 ^ 53"
    using roundDouble_eqI [of "- 1" "nearest098 * nearest098" "1 / 2 ^ 53" 8650514164253248]
    unfolding half_binade by (simp add: nearest098_def)
  show "roundDouble (8650514164253248 / 2 ^ 53) = 8650514164253248 / 2 ^ 53"
    using roundDouble_eqI [of "- 1" "8650514164253248 / 2 ^ 53" "1 / 2 ^ 53" 8650514164253248]
    unfolding half_binade by simp
  let ?s = "8650514164253248 / 2 ^ 53 :: real"
  have lo: "(8827055269646172 - 1 / 2) / 2 ^ 53 < sqrt ?s"
    by (rule real_less_rsqrt) (simp add: power2_eq_square)
  have hi: "sqrt ?s < (8827055269646172 + 1 / 2) / 2 ^ 53"
    by (rule real_less_lsqrt) (simp_all add: power2_eq_square)
  define y where "y = sqrt ?s"
  have lo': "(8827055269646172 - 1 / 2) / 2 ^ 53 < y" and hi': "y < (8827055269646172 + 1 / 2) / 2 ^ 53"
    using lo hi by (simp_all only: y_def)
  have a: "\<bar>y\<bar> = y" using lo' by simp
  have b1: "1 / 2 \<le> y" using lo' by simp
  have b2: "y < 1" using hi' by simp
  define z where "z = y * 2 ^ 53"
  have "8827055269646172 - 1 / 2 < z" "z < 8827055269646172 + 1 / 2"
    using lo' hi' by (simp_all add: z_def divide_less_eq less_divide_eq)
  then have "\<bar>z - 8827055269646172\<bar> < 1 / 2"
    unfolding abs_less_iff by linarith
  then have b3: "\<bar>y / (1 / 2 ^ 53) - of_int 8827055269646172\<bar> < 1 / 2"
    by (simp add: z_def)
  from roundDouble_eqI [of "- 1" y "1 / 2 ^ 53" 8827055269646172]
  have "roundDouble y = nearest098"
    unfolding half_binade a using b1 b2 b3 by (simp add: nearest098_def)
  then show "roundDouble (sqrt ?s) = nearest098"
    by (simp only: y_def)
qed


lemma doubleDistance_far:
  assumes "1 \<le> \<bar>cy p - cy q\<bar>" and "\<bar>cx p - cx q\<bar> \<le> 1000" and "\<bar>cy p - cy q\<bar> \<le> 1000"
  shows "985 / 1000 \<le> doubleDistance p q"
proof -
  define dx where "dx = roundDouble (cx p - cx q)"
  define dy where "dy = roundDouble (cy p - cy q)"
  have dx: "\<bar>dx - (cx p - cx q)\<bar> \<le> 1 / 1000" and dy: "\<bar>dy - (cy p - cy q)\<bar> \<le> 1 / 1000"
    unfolding dx_def dy_def using assms(2,3) by (intro roundDouble_near; simp)+
  have ax: "\<bar>dx\<bar> \<le> 1001" and ay: "999 / 1000 \<le> \<bar>dy\<bar>" "\<bar>dy\<bar> \<le> 1001"
    using dx dy assms by linarith+
  define x2 where "x2 = dx * dx"
  define y2 where "y2 = dy * dy"
  have x2: "0 \<le> x2" "x2 \<le> 1001 * 1001"
  proof -
    show "0 \<le> x2" by (simp add: x2_def)
    have "\<bar>dx\<bar> * \<bar>dx\<bar> \<le> 1001 * 1001"
      using ax by (intro mult_mono) simp_all
    then show "x2 \<le> 1001 * 1001" by (simp add: x2_def abs_mult [symmetric])
  qed
  have y2: "998 / 1000 \<le> y2" "y2 \<le> 1001 * 1001"
  proof -
    have "(999 / 1000) * (999 / 1000) \<le> \<bar>dy\<bar> * \<bar>dy\<bar>"
      using ay(1) by (intro mult_mono) simp_all
    then show "998 / 1000 \<le> y2" by (simp add: y2_def abs_mult [symmetric])
    have "\<bar>dy\<bar> * \<bar>dy\<bar> \<le> 1001 * 1001"
      using ay(2) by (intro mult_mono) simp_all
    then show "y2 \<le> 1001 * 1001" by (simp add: y2_def abs_mult [symmetric])
  qed
  define rx where "rx = roundDouble x2"
  define ry where "ry = roundDouble y2"
  have rx: "\<bar>rx - x2\<bar> \<le> 1 / 1000" and ry: "\<bar>ry - y2\<bar> \<le> 1 / 1000"
    unfolding rx_def ry_def using x2 y2 by (intro roundDouble_near; simp)+
  define t where "t = roundDouble (rx + ry)"
  have "\<bar>rx + ry\<bar> \<le> 3000000" using rx ry x2 y2 by linarith
  then have "\<bar>t - (rx + ry)\<bar> \<le> 1 / 1000"
    unfolding t_def by (intro roundDouble_near) simp
  with rx ry x2 y2 have t: "995 / 1000 \<le> t" "t \<le> 3000000" by linarith+
  have lo: "99 / 100 \<le> sqrt t"
    using t(1) by (intro real_le_rsqrt) (simp add: power2_eq_square)
  have hi: "sqrt t \<le> 2000"
    using t(2) by (intro real_le_lsqrt) simp_all
  have "\<bar>roundDouble (sqrt t) - sqrt t\<bar> \<le> 1 / 1000"
    using lo hi by (intro roundDouble_near) simp
  with lo have "985 / 1000 \<le> roundDouble (sqrt t)" by linarith
  then show ?thesis
    by (simp add: doubleDistance_def Let_def dx_def dy_def x2_def y2_def rx_def ry_def t_def)
qed

lemma nearest098_distance: "doubleDistance (pt nearest098 0) (pt 0 0) = nearest098"
proof -
  have z: "roundDouble 0 = 0" by (simp add: roundDouble_def)
  have "doubleDistance (pt nearest098 0) (pt 0 0) =
          roundDouble (sqrt (roundDouble (roundDouble (nearest098 * nearest098) + 0)))"
    unfolding doubleDistance_def Let_def pt_sel
    by (simp only: diff_zero mult_zero_left z nearest098(2))
  also have "\<dots> = nearest098"
    by (simp only: add_0_right nearest098(3,4,5))
  finally show ?thesis .
qed

text \<open>
  At the threshold. The input line runs from (0, 0) to (0, -1) and the distance is 1, so the
  point allowance is the double nearest to 0.98. The first vertex of the merged line is at
  just that distance from the start point: the code tests \<^verbatim>\<open>v < v\<close> and keeps the
  vertex, where the allowance of the reals, 0.98, would lose it.
\<close>

lemma thresholdLine_kept:
  "bufferLineSingleSided thresholdWorld (BufferBuilder_new defaultParams)
     (LineString [pt 0 0, pt 0 (- 1)]) 1 True =
   Inr (LineString thresholdLine, (BufferBuilder_new defaultParams)\<lparr>li := Some Floating\<rparr>)"
  and "trimLine thresholdWorld thresholdLine (pt 0 0) (pt 0 (- 1)) 1 1 = Some thresholdLine"
  and "coordinateDistance thresholdWorld (hd thresholdLine) (pt 0 0) = nearest098"
  and "toDouble thresholdWorld (1 * toDouble thresholdWorld 0.98) = nearest098"
  and "nearest098 < 98 / 100"
proof -
  let ?b = "BufferBuilder_new defaultParams"
  let ?l = "[pt 0 0, pt 0 (- 1)]"
  show "nearest098 < 98 / 100" by (simp add: nearest098_def)
  have w: "toDouble thresholdWorld = roundDouble" "coordinateDistance thresholdWorld = doubleDistance"
    "getLength thresholdWorld = doubleLength"
    by (simp_all add: thresholdWorld_def mergerWorld_simps)
  have one: "doubleDistance (pt 0 0) (pt 0 (- 1)) = 1"
    by (rule doubleDistance_Ints [OF refl refl]; simp)
  then have len: "doubleLength ?l = 1"
    by (simp add: doubleLength_def roundDouble_Ints)
  have merged: "singleSidedMergedLines thresholdWorld ?b ?l 1 True =
                  Inr ([thresholdLine], ?b\<lparr>li := Some Floating\<rparr>)"
    unfolding thresholdWorld_def
    by (subst singleSidedMergedLines_mergerWorld) (simp_all add: pt_eq)
  define c1 where "c1 = roundDouble (1 / 10)"
  define q1 where "q1 = roundDouble (1 * c1)"
  define a1 where "a1 = roundDouble (1 - q1)"
  have b1: "\<bar>c1 - 1 / 10\<bar> \<le> 1 / 1000"
    unfolding c1_def by (rule roundDouble_near) simp
  then have "0 \<le> c1" "c1 \<le> 1" by linarith+
  then have "\<bar>1 * c1\<bar> \<le> 2 ^ 40" by simp
  then have b2: "\<bar>q1 - 1 * c1\<bar> \<le> 1 / 1000"
    unfolding q1_def by (rule roundDouble_near)
  with b1 have "0 \<le> q1" "q1 \<le> 1" by linarith+
  then have "\<bar>1 - q1\<bar> \<le> 2 ^ 40" by simp
  then have b3: "\<bar>a1 - (1 - q1)\<bar> \<le> 1 / 1000"
    unfolding a1_def by (rule roundDouble_near)
  from b1 b2 b3 have "a1 \<le> 91 / 100" by linarith
  then have a1: "a1 \<le> nearest098" by (simp add: nearest098_def)
  have r: "roundDouble (49 / 50) = nearest098"
    using nearest098(1) by simp
  have pa: "pointAllowance thresholdWorld 1 1 = nearest098"
    unfolding pointAllowance_def w
    using a1 by (simp add: a1_def q1_def c1_def r nearest098(2))
  have far: "985 / 1000 \<le> doubleDistance (pt nearest098 0) (pt 0 (- 1))"
    "985 / 1000 \<le> doubleDistance (pt nearest098 2) (pt 0 0)"
    "985 / 1000 \<le> doubleDistance (pt nearest098 2) (pt 0 (- 1))"
    by (rule doubleDistance_far; simp add: pt_sel nearest098_def)+
  have c: "nearest098 < 985 / 1000" by (simp add: nearest098_def)
  have cmp: "(doubleDistance (pt nearest098 0) (pt 0 (- 1)) < nearest098) = False"
    "(doubleDistance (pt nearest098 2) (pt 0 0) < nearest098) = False"
    "(doubleDistance (pt nearest098 2) (pt 0 (- 1)) < nearest098) = False"
    using far c by simp_all
  have seq: "trimSequential thresholdWorld thresholdLine (pt 0 0) (pt 0 (- 1)) 1 1 = thresholdLine"
    unfolding trimSequential_def Let_def pa
    by (simp add: shrinkBack_def thresholdLine_def w nearest098_distance cmp)
  have sizes: "\<forall>cs \<in> set [thresholdLine]. length cs < 2 ^ 64"
    by (simp add: thresholdLine_def)
  have "length thresholdLine < 2 ^ 64" "1 < length thresholdLine"
    by (simp_all add: thresholdLine_def)
  then show "trimLine thresholdWorld thresholdLine (pt 0 0) (pt 0 (- 1)) 1 1 = Some thresholdLine"
    by (simp add: trimLine_refines seq)
  show "coordinateDistance thresholdWorld (hd thresholdLine) (pt 0 0) = nearest098"
    by (simp add: w thresholdLine_def nearest098_distance)
  show "toDouble thresholdWorld (1 * toDouble thresholdWorld 0.98) = nearest098"
    by (simp add: w r nearest098(2))
  have d: "(1::real) \<noteq> 0" by simp
  have pos: "((0::real) < 1 \<and> ?l \<noteq> []) \<or> [thresholdLine] = []" by simp
  from bufferLineSingleSided_trimmed [OF d merged pos sizes]
  show "bufferLineSingleSided thresholdWorld ?b (LineString ?l) 1 True =
          Inr (LineString thresholdLine, ?b\<lparr>li := Some Floating\<rparr>)"
    using sizes by (simp add: w len seq trimmedLines_def singleSidedResult_def)
      (simp add: thresholdLine_def)
qed

end
